theory Spec2Isabelle
  imports Main
begin

section \<open>JavaScript values\<close>

text \<open>
  The values that flow through \<^verbatim>\<open>src/utils/ScriptHelpers.ts\<close>. Numbers are the integers
  the file uses (ports, the pool's connection limit). An object is its list of own
  properties; a connection pool made by \<^verbatim>\<open>mysql.createPool\<close> is an object with an identity
  (the number of the allocation that made it) and the options it was made from. A native
  function of the engine is known by its name, and \<^verbatim>\<open>Object.prototype\<close> is a value of its
  own: they are what a lookup finds when it reaches an inherited property.
\<close>

datatype jsval =
    JUndefined
  | JNull
  | JBool bool
  | JNum int
  | JStr string
  | JArr "jsval list"
  | JObj "(string \<times> jsval) list"
  | JPool nat "(string \<times> jsval) list"
  | JFunction string
  | JObjectPrototype

datatype error = Error string

text \<open>The outcome of a promise: not settled, resolved, or rejected with an error.\<close>

datatype promise = Pending | Fulfilled | Rejected error

text \<open>\<^verbatim>\<open>if (v)\<close>: the falsy values are undefined, null, false, 0 and the empty string.\<close>

fun truthy :: "jsval \<Rightarrow> bool" where
  "truthy JUndefined = False"
| "truthy JNull = False"
| "truthy (JBool b) = b"
| "truthy (JNum n) = (n \<noteq> 0)"
| "truthy (JStr s) = (s \<noteq> [])"
| "truthy (JArr xs) = True"
| "truthy (JObj ps) = True"
| "truthy (JPool i ps) = True"
| "truthy (JFunction f) = True"
| "truthy JObjectPrototype = True"

text \<open>
  \<^verbatim>\<open>v[k]\<close> for a property name \<open>k\<close>: the own property of an object, undefined elsewhere.
  The file reads \<^verbatim>\<open>jsonEnvironments[stage]\<close> and \<^verbatim>\<open>yamlEnvironments[stage]\<close> only, with
  \<open>stage\<close> one of int, staging and prod, which no prototype, array or string defines.
\<close>

fun js_prop :: "jsval \<Rightarrow> string \<Rightarrow> jsval" where
  "js_prop (JObj ps) k = (case map_of ps k of None \<Rightarrow> JUndefined | Some v \<Rightarrow> v)"
| "js_prop v k = JUndefined"

text \<open>
  The decimal numeral of an integer, as a template literal prints a number. It is what
  JavaScript prints for the integers below \<open>10\<^sup>2\<^sup>1\<close> in absolute value, which covers the
  numbers of this file; from there on JavaScript prints the digits of the floating-point
  value with an exponent, which numbers as integers do not have.
\<close>

definition digit :: "nat \<Rightarrow> char" where
  "digit d = ''0123456789'' ! d"

fun decimal :: "nat \<Rightarrow> string" where
  "decimal n = (if 10 \<le> n then decimal (n div 10) else []) @ [digit (n mod 10)]"

definition number_to_string :: "int \<Rightarrow> string" where
  "number_to_string i = (if 0 \<le> i then decimal (nat i) else CHR ''-'' # decimal (nat (- i)))"

fun join_comma :: "string list \<Rightarrow> string" where
  "join_comma [] = []"
| "join_comma [s] = s"
| "join_comma (s # t # ss) = s @ '','' @ join_comma (t # ss)"

text \<open>
  \<^verbatim>\<open>`${v}`\<close>: the string conversion of a template literal. An array joins its elements
  with commas, null and undefined elements giving the empty string.
\<close>

fun to_string :: "jsval \<Rightarrow> string" where
  "to_string JUndefined = ''undefined''"
| "to_string JNull = ''null''"
| "to_string (JBool b) = (if b then ''true'' else ''false'')"
| "to_string (JNum n) = number_to_string n"
| "to_string (JStr s) = s"
| "to_string (JArr xs) =
     join_comma (map (\<lambda>x. if x = JUndefined \<or> x = JNull then [] else to_string x) xs)"
| "to_string (JObj ps) = ''[object Object]''"
| "to_string (JPool i ps) = ''[object Object]''"
| "to_string (JFunction f) = ''function '' @ f @ ''() { [native code] }''"
| "to_string JObjectPrototype = ''[object Object]''"

text \<open>\<^verbatim>\<open>_.toLower\<close> on the letters that matter to the comparison with \<^verbatim>\<open>'false'\<close>.\<close>

definition lower_char :: "char \<Rightarrow> char" where
  "lower_char c =
     (if 65 \<le> (of_char c :: nat) \<and> (of_char c :: nat) \<le> 90
      then char_of ((of_char c :: nat) + 32) else c)"

definition toLower :: "string \<Rightarrow> string" where
  "toLower s = map lower_char s"

subsection \<open>Property access\<close>

text \<open>
  \<^verbatim>\<open>v[k]\<close> in full: the own property when there is one, else the inherited one. The own
  properties of the data that a JSON or YAML file holds are those of an object, and the
  indices and the \<^verbatim>\<open>length\<close> of an array or a string. What a value inherits depends on the
  engine and its built-in objects; it is the parameter \<open>inherited\<close>, which also answers
  for the properties of the values that are not data (pools, native functions).
\<close>

definition own_property :: "jsval \<Rightarrow> string \<Rightarrow> jsval option" where
  "own_property v k =
     (case v of
        JObj ps \<Rightarrow> map_of ps k
      | JArr xs \<Rightarrow>
          if k = ''length'' then Some (JNum (int (length xs)))
          else map_option (\<lambda>i. xs ! i) (find (\<lambda>i. decimal i = k) [0..<length xs])
      | JStr s \<Rightarrow>
          if k = ''length'' then Some (JNum (int (length s)))
          else map_option (\<lambda>i. JStr [s ! i]) (find (\<lambda>i. decimal i = k) [0..<length s])
      | _ \<Rightarrow> None)"

text \<open>\<^verbatim>\<open>k in Object(v)\<close>\<close>

definition has_property :: "(jsval \<Rightarrow> string \<Rightarrow> jsval option) \<Rightarrow> jsval \<Rightarrow> string \<Rightarrow> bool" where
  "has_property inherited v k = (own_property v k \<noteq> None \<or> inherited v k \<noteq> None)"

definition get_property :: "(jsval \<Rightarrow> string \<Rightarrow> jsval option) \<Rightarrow> jsval \<Rightarrow> string \<Rightarrow> jsval" where
  "get_property inherited v k =
     (case own_property v k of
        Some x \<Rightarrow> x
      | None \<Rightarrow> (case inherited v k of Some x \<Rightarrow> x | None \<Rightarrow> JUndefined))"

subsection \<open>lodash\<close>

text \<open>
  \<^verbatim>\<open>_.get(object, path, defaultValue)\<close> as lodash 4 defines it, for a path that is a string
  of characters below 256. Its regular expressions are written out as functions on strings.
\<close>

definition word_char :: "char \<Rightarrow> bool" where
  "word_char c =
     (let n = (of_char c :: nat)
      in (48 \<le> n \<and> n \<le> 57) \<or> (65 \<le> n \<and> n \<le> 90) \<or> (97 \<le> n \<and> n \<le> 122) \<or> n = 95)"

definition digit_char :: "char \<Rightarrow> bool" where
  "digit_char c = (48 \<le> (of_char c :: nat) \<and> (of_char c :: nat) \<le> 57)"

definition line_terminator :: "char \<Rightarrow> bool" where
  "line_terminator c = (c = CHR 0x0A \<or> c = CHR 0x0D)"

definition quote_char :: "char \<Rightarrow> bool" where
  "quote_char c = (c = CHR 0x22 \<or> c = CHR 0x27)"

text \<open>\<^verbatim>\<open>reIsPlainProp = /^\w*$/\<close>\<close>

definition reIsPlainProp :: "string \<Rightarrow> bool" where
  "reIsPlainProp s = list_all word_char s"

text \<open>
  The body of a quoted key and its closing quote, \<^verbatim>\<open>(?:(?!\1)[^\\]|\\.)*?\1\<close>, read from
  just after the opening quote \<open>q\<close>: the content up to the first quote that no backslash
  escapes, and what follows that quote. A backslash takes the next character with it,
  which must not end a line.
\<close>

fun quoted :: "char \<Rightarrow> string \<Rightarrow> (string \<times> string) option" where
  "quoted q [] = None"
| "quoted q [c] = (if c = q then Some ([], []) else None)"
| "quoted q (c # d # cs) =
     (if c = q then Some ([], d # cs)
      else if c = CHR 0x5C then
        (if line_terminator d then None
         else map_option (\<lambda>(content, rest). (c # d # content, rest)) (quoted q cs))
      else map_option (\<lambda>(content, rest). (c # content, rest)) (quoted q (d # cs)))"

text \<open>After an opening bracket: \<^verbatim>\<open>[^[\]]*\]\<close>.\<close>

fun bracket_plain :: "string \<Rightarrow> bool" where
  "bracket_plain [] = False"
| "bracket_plain (c # cs) =
     (if c = CHR '']'' then True else if c = CHR ''['' then False else bracket_plain cs)"

text \<open>After an opening bracket: a quoted key and the closing bracket; the content and the rest.\<close>

definition bracket_quoted :: "string \<Rightarrow> (string \<times> string) option" where
  "bracket_quoted s =
     (case s of
        [] \<Rightarrow> None
      | q # cs \<Rightarrow>
          if quote_char q then
            (case quoted q cs of
               Some (content, r # rest) \<Rightarrow> if r = CHR '']'' then Some (content, rest) else None
             | _ \<Rightarrow> None)
          else None)"

text \<open>\<^verbatim>\<open>reIsDeepProp = /\.|\[(?:[^[\]]*|(["'])(?:(?!\1)[^\\]|\\.)*?\1)\]/\<close>, tested anywhere in the string.\<close>

fun reIsDeepProp :: "string \<Rightarrow> bool" where
  "reIsDeepProp [] = False"
| "reIsDeepProp (c # cs) =
     (c = CHR ''.''
      \<or> (c = CHR ''['' \<and> (bracket_plain cs \<or> bracket_quoted cs \<noteq> None))
      \<or> reIsDeepProp cs)"

text \<open>
  \<^verbatim>\<open>isKey(value, object)\<close> for a string: a plain property name, or a string with no path
  syntax, or the name of a property that the object has.
\<close>

definition isKey :: "(jsval \<Rightarrow> string \<Rightarrow> jsval option) \<Rightarrow> string \<Rightarrow> jsval \<Rightarrow> bool" where
  "isKey inherited value object =
     (reIsPlainProp value \<or> \<not> reIsDeepProp value
      \<or> (object \<noteq> JNull \<and> object \<noteq> JUndefined \<and> has_property inherited object value))"

text \<open>
  The alternatives of \<^verbatim>\<open>rePropName\<close>, tried in this order at a position of the string.
  After an opening bracket, a number \<^verbatim>\<open>-?\d+(?:\.\d+)?\<close> and the closing bracket: the
  number and the rest.
\<close>

definition bracket_number :: "string \<Rightarrow> (string \<times> string) option" where
  "bracket_number s =
     (let sign = (if s \<noteq> [] \<and> hd s = CHR ''-'' then ''-'' else []);
          s1 = drop (length sign) s;
          whole = takeWhile digit_char s1;
          s2 = dropWhile digit_char s1;
          fraction = (if s2 \<noteq> [] \<and> hd s2 = CHR ''.'' then takeWhile digit_char (tl s2) else []);
          number = (if fraction = [] then sign @ whole else sign @ whole @ ''.'' @ fraction);
          s3 = drop (length number) s
      in if whole \<noteq> [] \<and> s3 \<noteq> [] \<and> hd s3 = CHR '']'' then Some (number, tl s3) else None)"

text \<open>\<^verbatim>\<open>subString.replace(/\\(\\)?/g, '$1')\<close>\<close>

fun unescape :: "string \<Rightarrow> string" where
  "unescape [] = []"
| "unescape [c] = (if c = CHR 0x5C then [] else [c])"
| "unescape (c # d # cs) =
     (if c = CHR 0x5C then (if d = CHR 0x5C then d # unescape cs else unescape (d # cs))
      else c # unescape (d # cs))"

text \<open>After an opening bracket: the key of a bracket with a number or a quoted string.\<close>

definition bracket_key :: "string \<Rightarrow> (string \<times> string) option" where
  "bracket_key s =
     (case bracket_number s of
        Some r \<Rightarrow> Some r
      | None \<Rightarrow> map_option (\<lambda>(content, rest). (unescape content, rest)) (bracket_quoted s))"

text \<open>\<^verbatim>\<open>[^.[\]]\<close>\<close>

definition path_char :: "char \<Rightarrow> bool" where
  "path_char c = (c \<noteq> CHR ''.'' \<and> c \<noteq> CHR ''['' \<and> c \<noteq> CHR '']'')"

text \<open>The empty match \<^verbatim>\<open>(?=(?:\.|\[\])(?:\.|\[\]|$))\<close>, which gives an empty key.\<close>

definition delimiter_or_end :: "string \<Rightarrow> bool" where
  "delimiter_or_end s = (s = [] \<or> hd s = CHR ''.'' \<or> take 2 s = ''[]'')"

definition empty_key_here :: "string \<Rightarrow> bool" where
  "empty_key_here s =
     ((s \<noteq> [] \<and> hd s = CHR ''.'' \<and> delimiter_or_end (tl s))
      \<or> (take 2 s = ''[]'' \<and> delimiter_or_end (drop 2 s)))"

text \<open>
  The keys that the global \<^verbatim>\<open>replace\<close> with \<^verbatim>\<open>rePropName\<close> collects from a position on: a
  run of characters that are none of \<^verbatim>\<open>.[]\<close>, or a bracket with a number or a quoted
  string, or an empty key, after which the search moves on by one character, or no match
  here and the search moves on by one character.
\<close>

function scan_path :: "string \<Rightarrow> string list" where
  "scan_path [] = []"
| "scan_path (c # cs) =
     (if path_char c then takeWhile path_char (c # cs) # scan_path (dropWhile path_char cs)
      else (case (if c = CHR ''['' then bracket_key cs else None) of
              Some (k, rest) \<Rightarrow> k # scan_path rest
            | None \<Rightarrow> (if empty_key_here (c # cs) then [] # scan_path cs else scan_path cs)))"
  by pat_completeness auto
termination
proof -
  have quoted_rest: "quoted q s = Some (content, rest) \<Longrightarrow> length rest \<le> length s"
    for q s content rest
    by (induction q s arbitrary: content rest rule: quoted.induct)
       (fastforce split: if_splits)+
  have bracket_key_rest: "length rest \<le> length s" if a: "bracket_key s = Some (k, rest)"
    for s k rest
  proof (cases "bracket_number s")
    case (Some r)
    with a have "r = (k, rest)" by (simp add: bracket_key_def)
    with Some show ?thesis
      by (auto simp: bracket_number_def Let_def split: if_splits)
  next
    case None
    with a obtain content where "bracket_quoted s = Some (content, rest)"
      by (auto simp: bracket_key_def)
    then show ?thesis
      by (auto simp: bracket_quoted_def split: list.splits if_splits option.splits
               dest!: quoted_rest)
  qed
  show ?thesis
  proof (relation "measure length")
    show "wf (measure length)" by simp
  next
    fix c :: char and cs :: string
    assume "path_char c"
    show "(dropWhile path_char cs, c # cs) \<in> measure length"
      using length_dropWhile_le[of path_char cs] by simp
  next
    fix c :: char and cs :: string and x2 :: "string \<times> string" and k rest
    assume "\<not> path_char c" "(if c = CHR ''['' then bracket_key cs else None) = Some x2"
      "(k, rest) = x2"
    then have "bracket_key cs = Some (k, rest)" by (simp split: if_splits)
    then show "(rest, c # cs) \<in> measure length"
      using bracket_key_rest by fastforce
  next
    fix c :: char and cs :: string
    show "(cs, c # cs) \<in> measure length" by simp
  next
    fix c :: char and cs :: string
    show "(cs, c # cs) \<in> measure length" by simp
  qed
qed

text \<open>\<^verbatim>\<open>stringToPath\<close>: a leading dot gives an empty first key.\<close>

definition stringToPath :: "string \<Rightarrow> string list" where
  "stringToPath s = (if s \<noteq> [] \<and> hd s = CHR ''.'' then [[]] else []) @ scan_path s"

definition castPath :: "(jsval \<Rightarrow> string \<Rightarrow> jsval option) \<Rightarrow> string \<Rightarrow> jsval \<Rightarrow> string list" where
  "castPath inherited value object =
     (if isKey inherited value object then [value] else stringToPath value)"

text \<open>
  The loop of \<^verbatim>\<open>baseGet\<close>:
  \<^verbatim>\<open>while (object != null && index < length) { object = object[toKey(path[index++])]; }\<close>
  and its result, \<^verbatim>\<open>(index && index == length) ? object : undefined\<close>.
\<close>

fun follow :: "(jsval \<Rightarrow> string \<Rightarrow> jsval option) \<Rightarrow> jsval \<Rightarrow> string list \<Rightarrow> jsval" where
  "follow inherited object [] = object"
| "follow inherited object (k # ks) =
     (if object = JNull \<or> object = JUndefined then JUndefined
      else follow inherited (get_property inherited object k) ks)"

definition baseGet :: "(jsval \<Rightarrow> string \<Rightarrow> jsval option) \<Rightarrow> jsval \<Rightarrow> string \<Rightarrow> jsval" where
  "baseGet inherited object path =
     (let keys = castPath inherited path object
      in if keys = [] then JUndefined else follow inherited object keys)"

text \<open>
  \<^verbatim>\<open>var result = object == null ? undefined : baseGet(object, path);
  return result === undefined ? defaultValue : result;\<close>
\<close>

definition lodash_get ::
  "(jsval \<Rightarrow> string \<Rightarrow> jsval option) \<Rightarrow> jsval \<Rightarrow> string \<Rightarrow> jsval \<Rightarrow> jsval" where
  "lodash_get inherited object path defaultValue =
     (let result = (if object = JNull \<or> object = JUndefined then JUndefined
                    else baseGet inherited object path)
      in if result = JUndefined then defaultValue else result)"

text \<open>
  \<^verbatim>\<open>_.merge(object, source)\<close>: the assigner that lodash builds skips a source that is falsy
  (\<^verbatim>\<open>if (source) { assigner(object, source, ...) }\<close>) and returns the object; the recursive
  \<^verbatim>\<open>baseMerge\<close> of the library is a parameter.
\<close>

definition lodash_merge :: "(jsval \<Rightarrow> jsval \<Rightarrow> jsval) \<Rightarrow> jsval \<Rightarrow> jsval \<Rightarrow> jsval" where
  "lodash_merge baseMerge object source =
     (if truthy source then baseMerge object source else object)"

section \<open>The data sources built by runScript\<close>

subsection \<open>ScriptEnvironment\<close>

text \<open>
  The first anonymous class of \<^verbatim>\<open>runScript\<close>. \<open>stage\<close>, \<open>dryRun\<close> and \<open>argv\<close> are the
  variables of \<^verbatim>\<open>runScript\<close> that the class closes over (\<^verbatim>\<open>stage\<close>, \<^verbatim>\<open>dryRun\<close>, \<^verbatim>\<open>opt.argv\<close>);
  \<open>dir\<close> is \<^verbatim>\<open>process.env.PWD\<close> at construction; \<open>environment\<close> is undefined until
  \<^verbatim>\<open>initialize\<close> has run.
\<close>

record script_environment =
  stage :: string
  dryRun :: bool
  argv :: "string list"
  dir :: "string option"
  environment :: jsval

text \<open>
  What \<^verbatim>\<open>fs.existsSync\<close> and the loader (\<^verbatim>\<open>require\<close>, \<^verbatim>\<open>yamljs.load\<close>) give for an
  environment file: no such file, a loader that throws, or the parsed contents.
\<close>

datatype env_file = Missing | Unreadable error | Contents jsval

text \<open>
  One of the two blocks of \<^verbatim>\<open>initialize\<close>: when the file exists and its contents are
  truthy, \<^verbatim>\<open>_.merge(environment, contents[stage])\<close>.
\<close>

definition merge_file ::
  "(jsval \<Rightarrow> jsval \<Rightarrow> jsval) \<Rightarrow> string \<Rightarrow> env_file \<Rightarrow> jsval \<Rightarrow> error + jsval" where
  "merge_file baseMerge stg file env =
     (case file of
        Missing \<Rightarrow> Inr env
      | Unreadable e \<Rightarrow> Inl e
      | Contents environments \<Rightarrow>
          if truthy environments
          then Inr (lodash_merge baseMerge env (js_prop environments stg))
          else Inr env)"

definition ScriptEnvironment_initialize ::
  "(jsval \<Rightarrow> jsval \<Rightarrow> jsval) \<Rightarrow> env_file \<Rightarrow> env_file \<Rightarrow> script_environment
     \<Rightarrow> error + script_environment" where
  "ScriptEnvironment_initialize baseMerge envJSONFile envYAMLFile this =
     (case merge_file baseMerge (stage this) envJSONFile (JObj []) of
        Inl e \<Rightarrow> Inl e
      | Inr env1 \<Rightarrow>
          (case merge_file baseMerge (stage this) envYAMLFile env1 of
             Inl e \<Rightarrow> Inl e
           | Inr env2 \<Rightarrow> Inr (this\<lparr>environment := env2\<rparr>)))"

definition ScriptEnvironment_get ::
  "(jsval \<Rightarrow> string \<Rightarrow> jsval option) \<Rightarrow> script_environment \<Rightarrow> string \<Rightarrow> jsval" where
  "ScriptEnvironment_get inherited this key =
     (if key = ''stage'' then JStr (stage this)
      else if key = ''dryRun'' then JBool (dryRun this)
      else if key = ''args'' then JArr (map JStr (argv this))
      else if key = ''dir'' then (case dir this of None \<Rightarrow> JUndefined | Some d \<Rightarrow> JStr d)
      else lodash_get inherited (environment this) key JNull)"

subsection \<open>LocalDBFactories\<close>

record local_db =
  port :: "int option"
  user :: jsval
  password :: jsval

definition new_local_db :: local_db where
  "new_local_db = \<lparr>port = None, user = JUndefined, password = JUndefined\<rparr>"

text \<open>
  \<^verbatim>\<open>initialize(config)\<close>. The class Config is not among the sources; \<open>config_get\<close> is what
  \<^verbatim>\<open>await config.get(key)\<close> answers.
\<close>

definition LocalDBFactories_initialize ::
  "(string \<Rightarrow> jsval) \<Rightarrow> local_db \<Rightarrow> error + local_db" where
  "LocalDBFactories_initialize config_get this =
     (let port = (if config_get ''stage'' = JStr ''prod'' then Some 9306
                  else if config_get ''stage'' = JStr ''staging'' then Some 8306
                  else None)
      in case port of
           None \<Rightarrow> Inl (Error (''No port for stage '' @ to_string (config_get ''stage'')))
         | Some n \<Rightarrow>
             Inr (this\<lparr>port := Some n,
                       user := config_get ''CLASSY_DB_USERNAME'',
                       password := config_get ''CLASSY_DB_PASSWORD''\<rparr>))"



subsection \<open>Config\<close>

datatype data_source =
    ScriptEnvironment script_environment
  | Required string
  | LocalDBFactories local_db

type_synonym config = "data_source list"

text \<open>
  Modelled from the spec: \<^verbatim>\<open>Config.get\<close>, of the class Config that ScriptHelpers.ts imports
  from \<^verbatim>\<open>../Config\<close> and that is not among the sources. The spec: it "iterates sources in
  order, calling \<^verbatim>\<open>get(key)\<close> on each; returns the first defined result (short-circuits);
  returns absent if exhausted". The sources are given by what their \<^verbatim>\<open>get\<close> answers.
\<close>

fun Config_get :: "(string \<Rightarrow> jsval) list \<Rightarrow> string \<Rightarrow> jsval" where
  "Config_get [] key = JUndefined"
| "Config_get (g # gs) key = (if g key \<noteq> JUndefined then g key else Config_get gs key)"

section \<open>Events\<close>

text \<open>
  What a run does to the world, in the order it does it: writes to standard error,
  assignments to \<^verbatim>\<open>process.env\<close>, and the calls it makes to the functions and stream
  objects it was given.
\<close>

text \<open>A stream object, identified by its reference.\<close>

type_synonym stream = nat

record pipeline =
  source :: "stream option"
  transforms :: "stream list option"
  sink :: "stream option"

text \<open>The object \<^verbatim>\<open>const context = {}\<close> of a run.\<close>

datatype context_object = Context

datatype event =
    Console_error string
  | Console_error_caught error
  | Set_env string string
  | Validate_args "string list" bool
  | New_config config
  | Call_script config "string list"
  | Call_factory config "string list" context_object
  | Pipe stream stream
  | On_finish stream
  | Resolve
  | Reject error
  | Call_setup config "string list" context_object pipeline
  | Call_teardown config "string list" context_object pipeline

section \<open>runScript\<close>

text \<open>
  What \<^verbatim>\<open>runScript\<close> reads from the process: \<^verbatim>\<open>process.argv[0]\<close> and \<^verbatim>\<open>process.argv[1]\<close>,
  the options and remaining arguments that \<^verbatim>\<open>Getopt...parseSystem()\<close> returns
  (\<^verbatim>\<open>opt.options.stage\<close>, \<^verbatim>\<open>opt.options.dryRun\<close>, \<^verbatim>\<open>opt.argv\<close>; an option that was not given
  is undefined, here \<open>None\<close>), and \<^verbatim>\<open>process.env\<close>.
\<close>

record process =
  argv0 :: string
  argv1 :: string
  opt_stage :: "string option"
  opt_dryRun :: "string option"
  opt_argv :: "string list"
  env :: "string \<Rightarrow> string option"

datatype completion = Returned | Threw error

text \<open>
  The result of a call: how the call itself ended, the events of the run (those of the
  promise returned by the script included, which happen after the call has returned), and
  \<^verbatim>\<open>process.env\<close> afterwards.
\<close>

record script_result =
  completion :: completion
  trace :: "event list"
  env_after :: "string \<Rightarrow> string option"

definition usage :: "process \<Rightarrow> string \<Rightarrow> string" where
  "usage proc argDescription =
     ''usage: '' @ argv0 proc @ '' '' @ argv1 proc
       @ '' -s|--stage stage [--d|--dryRun dryRun] '' @ argDescription"

definition newline :: string where
  "newline = [CHR 0x0A]"

text \<open>\<^verbatim>\<open>if (validateArgsResult)\<close>: undefined and the empty string are falsy.\<close>

fun message_given :: "string option \<Rightarrow> bool" where
  "message_given None = False"
| "message_given (Some m) = (m \<noteq> [])"

text \<open>The array literal handed to \<^verbatim>\<open>new Config\<close>.\<close>

definition new_config :: "string \<Rightarrow> bool \<Rightarrow> string list \<Rightarrow> string option \<Rightarrow> config" where
  "new_config stg dry args pwd =
     [ScriptEnvironment \<lparr>stage = stg, dryRun = dry, argv = args, dir = pwd,
                         environment = JUndefined\<rparr>,
      Required ''../DataSources/Credstash'',
      Required ''../DataSources/Clients'',
      LocalDBFactories new_local_db]"

text \<open>The \<^verbatim>\<open>switch (stage)\<close>: the value assigned to \<^verbatim>\<open>process.env['AWS_PROFILE']\<close>, if any.\<close>

definition aws_profile :: "string \<Rightarrow> string option" where
  "aws_profile stg =
     (if stg = ''int'' \<or> stg = ''staging'' then Some ''classy-test''
      else if stg = ''prod'' then Some ''prod-pay''
      else None)"

text \<open>
  \<^verbatim>\<open>dryRun\<close>: true unless the option, \<^verbatim>\<open>'true'\<close> when it was not given, is \<^verbatim>\<open>'false'\<close> in
  lower case.
\<close>

definition dryRun_option :: "process \<Rightarrow> bool" where
  "dryRun_option proc =
     (let argDryRun = (case opt_dryRun proc of None \<Rightarrow> ''true'' | Some s \<Rightarrow> s)
      in toLower argDryRun \<noteq> ''false'')"

text \<open>
  \<open>f config args\<close> gives the events of the script and the outcome of the promise it
  returns; \<open>argValidator\<close> returns a message or undefined (\<open>None\<close>).
\<close>

definition runScript ::
  "(config \<Rightarrow> string list \<Rightarrow> event list \<times> promise) \<Rightarrow> string
     \<Rightarrow> (string list \<Rightarrow> bool \<Rightarrow> string option) \<Rightarrow> process \<Rightarrow> script_result" where
  "runScript f argDescription argValidator proc =
     (let argStage = (case opt_stage proc of None \<Rightarrow> [] | Some s \<Rightarrow> s) in
      if opt_stage proc = None \<or> argStage = [] then
        \<lparr>completion = Returned,
         trace = [Console_error (''Please specify a stage'' @ newline @ usage proc argDescription)],
         env_after = env proc\<rparr>
      else if argStage \<notin> set [''int'', ''staging'', ''prod''] then
        \<lparr>completion = Threw (Error (''Invalid stage '' @ argStage)),
         trace = [],
         env_after = env proc\<rparr>
      else
        (let stg = argStage;
             env1 = (case aws_profile stg of None \<Rightarrow> env proc
                     | Some v \<Rightarrow> (env proc)(''AWS_PROFILE'' \<mapsto> v));
             tr1 = (case aws_profile stg of None \<Rightarrow> []
                    | Some v \<Rightarrow> [Set_env ''AWS_PROFILE'' v]);
             dry = dryRun_option proc;
             validateArgsResult = argValidator (opt_argv proc) dry;
             tr2 = tr1 @ [Validate_args (opt_argv proc) dry]
         in if message_given validateArgsResult then
              \<lparr>completion = Returned,
               trace = tr2 @ [Console_error (''Invalid arguments to script: ''
                                @ the validateArgsResult @ newline @ usage proc argDescription)],
               env_after = env1\<rparr>
            else
              (let config = new_config stg dry (opt_argv proc) (env1 ''PWD'');
                   (evs, outcome) = f config (opt_argv proc)
               in \<lparr>completion = Returned,
                   trace = tr2 @ [New_config config, Call_script config (opt_argv proc)] @ evs
                             @ (case outcome of Rejected e \<Rightarrow> [Console_error_caught e] | _ \<Rightarrow> []),
                   env_after = env1\<rparr>)))"

section \<open>runPipes\<close>

text \<open>
  The behaviour of what the caller supplies: the pipeline the factory's promise resolves
  with (or the error it rejects with), whether a call of \<^verbatim>\<open>a.pipe(b)\<close> or of
  \<^verbatim>\<open>s.on('finish', ...)\<close> throws, and the outcome of the promise of \<^verbatim>\<open>teardown\<close>.
\<close>

record behaviour =
  factory :: "config \<Rightarrow> string list \<Rightarrow> context_object \<Rightarrow> error + pipeline"
  pipe_throws :: "stream \<Rightarrow> stream \<Rightarrow> error option"
  on_throws :: "stream \<Rightarrow> error option"
  teardown_outcome :: promise

text \<open>
  What happens once \<^verbatim>\<open>setup\<close> has been called, in the order it happens: a stream emits
  \<^verbatim>\<open>'finish'\<close>, the call of \<^verbatim>\<open>setup\<close> throws or its promise rejects (both reach the
  \<^verbatim>\<open>catch\<close> block of the executor), or the promise of \<^verbatim>\<open>setup\<close> resolves.
\<close>

datatype signal = Finish stream | Setup_rejected error | Setup_fulfilled

text \<open>
  The state of the promise executor: the variable \<^verbatim>\<open>called\<close>, the state of the promise,
  the stream on which the \<^verbatim>\<open>'finish'\<close> listener is registered, and the events so far.
\<close>

record run_state =
  called :: bool
  settled :: promise
  listener :: "stream option"
  events :: "event list"

definition new_run :: run_state where
  "new_run = \<lparr>called = False, settled = Pending, listener = None, events = []\<rparr>"

definition emit :: "event \<Rightarrow> run_state \<Rightarrow> run_state" where
  "emit e st = st\<lparr>events := events st @ [e]\<rparr>"

text \<open>\<^verbatim>\<open>resolve()\<close> and \<^verbatim>\<open>reject(e)\<close>: only the first call settles a promise.\<close>

definition resolve :: "run_state \<Rightarrow> run_state" where
  "resolve st =
     emit Resolve (st\<lparr>settled := (if settled st = Pending then Fulfilled else settled st)\<rparr>)"

definition reject :: "error \<Rightarrow> run_state \<Rightarrow> run_state" where
  "reject e st =
     emit (Reject e) (st\<lparr>settled := (if settled st = Pending then Rejected e else settled st)\<rparr>)"

text \<open>A statement of the \<^verbatim>\<open>try\<close> block gives the new state, and the error if it threw.\<close>

definition pipe :: "behaviour \<Rightarrow> stream \<Rightarrow> stream \<Rightarrow> run_state \<Rightarrow> run_state \<times> error option" where
  "pipe b upstream downstream st = (emit (Pipe upstream downstream) st, pipe_throws b upstream downstream)"

text \<open>
  The \<^verbatim>\<open>for\<close> loop over \<^verbatim>\<open>i = 0 .. transforms.length - 1\<close>; the fourth argument is the
  list of the indices still to visit.
\<close>

fun wire_transforms ::
  "behaviour \<Rightarrow> stream option \<Rightarrow> stream list \<Rightarrow> nat list \<Rightarrow> run_state \<Rightarrow> run_state \<times> error option" where
  "wire_transforms b src ts [] st = (st, None)"
| "wire_transforms b src ts (i # is) st =
     (case (if i = 0 then (case src of None \<Rightarrow> (st, None) | Some s \<Rightarrow> pipe b s (ts ! i) st)
            else pipe b (ts ! (i - 1)) (ts ! i) st) of
        (st', Some e) \<Rightarrow> (st', Some e)
      | (st', None) \<Rightarrow> wire_transforms b src ts is st')"

text \<open>\<^verbatim>\<open>if (!transforms) { transforms = []; }\<close>\<close>

definition transforms_of :: "pipeline \<Rightarrow> stream list" where
  "transforms_of pipeline = (case transforms pipeline of None \<Rightarrow> [] | Some ts \<Rightarrow> ts)"

text \<open>The value of the variable \<^verbatim>\<open>finalStream\<close> when \<^verbatim>\<open>if (finalStream)\<close> tests it.\<close>

definition finalStream :: "pipeline \<Rightarrow> stream option" where
  "finalStream pipeline =
     (let ts = transforms_of pipeline;
          final = (if length ts > 0 then Some (ts ! (length ts - 1)) else None)
      in case sink pipeline of Some k \<Rightarrow> Some k | None \<Rightarrow> final)"

text \<open>The body of \<^verbatim>\<open>if (sink) { ... }\<close> after the assignment to \<^verbatim>\<open>finalStream\<close>.\<close>

definition wire_sink :: "behaviour \<Rightarrow> pipeline \<Rightarrow> run_state \<Rightarrow> run_state \<times> error option" where
  "wire_sink b pipeline st =
     (let ts = transforms_of pipeline
      in case sink pipeline of
           None \<Rightarrow> (st, None)
         | Some k \<Rightarrow>
             if length ts > 0 then pipe b (ts ! (length ts - 1)) k st
             else (case source pipeline of Some s \<Rightarrow> pipe b s k st | None \<Rightarrow> (st, None)))"

text \<open>The listener of \<^verbatim>\<open>'finish'\<close>, and equally the \<^verbatim>\<open>else\<close> branch of \<^verbatim>\<open>if (finalStream)\<close>.\<close>

definition complete :: "run_state \<Rightarrow> run_state" where
  "complete st = (if \<not> called st then resolve (st\<lparr>called := True\<rparr>) else st)"

text \<open>\<^verbatim>\<open>if (finalStream) { finalStream.on('finish', ...) } else { ... }\<close>\<close>

definition watch :: "behaviour \<Rightarrow> pipeline \<Rightarrow> run_state \<Rightarrow> run_state \<times> error option" where
  "watch b pipeline st =
     (case finalStream pipeline of
        Some t \<Rightarrow>
          (case on_throws b t of
             Some e \<Rightarrow> (emit (On_finish t) st, Some e)
           | None \<Rightarrow> (emit (On_finish t) (st\<lparr>listener := Some t\<rparr>), None))
      | None \<Rightarrow> (complete st, None))"

text \<open>
  The \<^verbatim>\<open>try\<close> block up to the point where \<^verbatim>\<open>await setup(...)\<close> has called \<^verbatim>\<open>setup\<close>.
\<close>

definition try_block ::
  "behaviour \<Rightarrow> config \<Rightarrow> string list \<Rightarrow> pipeline \<Rightarrow> run_state \<Rightarrow> run_state \<times> error option" where
  "try_block b config args pipeline st =
     (let ts = transforms_of pipeline
      in case wire_transforms b (source pipeline) ts [0..<length ts] st of
           (st1, Some e) \<Rightarrow> (st1, Some e)
         | (st1, None) \<Rightarrow>
             (case wire_sink b pipeline st1 of
                (st2, Some e) \<Rightarrow> (st2, Some e)
              | (st2, None) \<Rightarrow>
                  (case watch b pipeline st2 of
                     (st3, Some e) \<Rightarrow> (st3, Some e)
                   | (st3, None) \<Rightarrow> (emit (Call_setup config args Context pipeline) st3, None))))"

text \<open>\<^verbatim>\<open>catch (e) { if (!called) { called = true; reject(e); } }\<close>\<close>

definition catch_block :: "error \<Rightarrow> run_state \<Rightarrow> run_state" where
  "catch_block e st = (if \<not> called st then reject e (st\<lparr>called := True\<rparr>) else st)"

text \<open>The executor of the promise, up to its suspension at \<^verbatim>\<open>await setup(...)\<close>.\<close>

definition executor :: "behaviour \<Rightarrow> config \<Rightarrow> string list \<Rightarrow> pipeline \<Rightarrow> run_state" where
  "executor b config args pipeline =
     (case try_block b config args pipeline new_run of
        (st, None) \<Rightarrow> st
      | (st, Some e) \<Rightarrow> catch_block e st)"

text \<open>
  The arrival of a signal: \<^verbatim>\<open>'finish'\<close> runs the listener when it is registered on the
  stream that emits; an error of \<^verbatim>\<open>setup\<close> runs the \<^verbatim>\<open>catch\<close> block.
\<close>

fun deliver :: "run_state \<Rightarrow> signal \<Rightarrow> run_state" where
  "deliver st (Finish s) = (if listener st = Some s then complete st else st)"
| "deliver st (Setup_rejected e) = catch_block e st"
| "deliver st Setup_fulfilled = st"

text \<open>The state of a run of the pipeline after the signals have arrived.\<close>

definition run :: "behaviour \<Rightarrow> config \<Rightarrow> string list \<Rightarrow> pipeline \<Rightarrow> signal list \<Rightarrow> run_state" where
  "run b config args pipeline signals = foldl deliver (executor b config args pipeline) signals"

text \<open>
  The \<^verbatim>\<open>async (config, args) => { ... }\<close> that \<^verbatim>\<open>runPipes\<close> hands to \<^verbatim>\<open>runScript\<close>:
  \<^verbatim>\<open>await new Promise(...)\<close> continues when the promise is resolved, throws when it is
  rejected, and neither while it is pending; \<^verbatim>\<open>await teardown(...)\<close> is the statement after.
\<close>

definition pipes_script ::
  "behaviour \<Rightarrow> signal list \<Rightarrow> config \<Rightarrow> string list \<Rightarrow> event list \<times> promise" where
  "pipes_script b signals config args =
     (case factory b config args Context of
        Inl e \<Rightarrow> ([Call_factory config args Context], Rejected e)
      | Inr pipeline \<Rightarrow>
          (let st = run b config args pipeline signals;
               tr = Call_factory config args Context # events st
           in case settled st of
                Pending \<Rightarrow> (tr, Pending)
              | Rejected e \<Rightarrow> (tr, Rejected e)
              | Fulfilled \<Rightarrow>
                  (tr @ [Call_teardown config args Context pipeline],
                   teardown_outcome b)))"

definition runPipes ::
  "behaviour \<Rightarrow> signal list \<Rightarrow> string \<Rightarrow> (string list \<Rightarrow> bool \<Rightarrow> string option)
     \<Rightarrow> process \<Rightarrow> script_result" where
  "runPipes b signals argDescription argValidator =
     runScript (pipes_script b signals) argDescription argValidator"

section \<open>What the specification says, and inputs to run the code on\<close>

text \<open>Recognisers of events.\<close>

fun is_pipe :: "event \<Rightarrow> bool" where
  "is_pipe (Pipe u d) = True"
| "is_pipe e = False"

fun is_on_finish :: "event \<Rightarrow> bool" where
  "is_on_finish (On_finish s) = True"
| "is_on_finish e = False"


fun is_setup :: "event \<Rightarrow> bool" where
  "is_setup (Call_setup c a x p) = True"
| "is_setup e = False"

fun is_teardown :: "event \<Rightarrow> bool" where
  "is_teardown (Call_teardown c a x p) = True"
| "is_teardown e = False"

text \<open>
  The specification's wiring: the stages that are present, in the order
  \<^verbatim>\<open>[source, ...transforms, sink]\<close>, and every adjacent pair of them.
\<close>

definition present :: "'a option \<Rightarrow> 'a list" where
  "present x = (case x of None \<Rightarrow> [] | Some v \<Rightarrow> [v])"

definition chain :: "pipeline \<Rightarrow> stream list" where
  "chain pipeline = present (source pipeline) @ transforms_of pipeline @ present (sink pipeline)"

definition adjacent_pairs :: "'a list \<Rightarrow> ('a \<times> 'a) list" where
  "adjacent_pairs xs = zip xs (tl xs)"

definition wired :: "pipeline \<Rightarrow> (stream \<times> stream) list" where
  "wired pipeline = adjacent_pairs (chain pipeline)"

definition pipe_event :: "stream \<times> stream \<Rightarrow> event" where
  "pipe_event ud = Pipe (fst ud) (snd ud)"

text \<open>The pairs that the loop pipes, and the pair that \<^verbatim>\<open>if (sink)\<close> pipes.\<close>

definition loop_wired :: "stream option \<Rightarrow> stream list \<Rightarrow> (stream \<times> stream) list" where
  "loop_wired src ts =
     (case src of None \<Rightarrow> [] | Some s \<Rightarrow> (if ts = [] then [] else [(s, hd ts)])) @ zip ts (tl ts)"

definition sink_wired :: "pipeline \<Rightarrow> (stream \<times> stream) list" where
  "sink_wired p =
     (case sink p of
        None \<Rightarrow> []
      | Some k \<Rightarrow> if transforms_of p \<noteq> [] then [(last (transforms_of p), k)]
                  else (case source p of Some s \<Rightarrow> [(s, k)] | None \<Rightarrow> []))"

text \<open>
  The specification's terminal stage: "sink if present, else the last transform, else the
  source, else no terminal".
\<close>

definition terminal_stage :: "pipeline \<Rightarrow> stream option" where
  "terminal_stage p =
     (case sink p of
        Some k \<Rightarrow> Some k
      | None \<Rightarrow>
          (if transforms_of p \<noteq> [] then Some (last (transforms_of p))
           else (case source p of Some s \<Rightarrow> Some s | None \<Rightarrow> None)))"

text \<open>
  The specification's settlement: the first of the signals \<^verbatim>\<open>'finish'\<close> of the terminal
  stage \<open>t\<close> and an error of \<^verbatim>\<open>setup\<close> decides, resolution for the one and rejection for the
  other.
\<close>

fun first_signal :: "stream option \<Rightarrow> signal list \<Rightarrow> promise" where
  "first_signal t [] = Pending"
| "first_signal t (Finish s # sigs) = (if t = Some s then Fulfilled else first_signal t sigs)"
| "first_signal t (Setup_rejected e # sigs) = Rejected e"
| "first_signal t (Setup_fulfilled # sigs) = first_signal t sigs"

text \<open>The call that settles a promise with a given outcome.\<close>

fun settle_events :: "promise \<Rightarrow> event list" where
  "settle_events Pending = []"
| "settle_events Fulfilled = [Resolve]"
| "settle_events (Rejected e) = [Reject e]"

text \<open>What \<^verbatim>\<open>if (finalStream) ... else ...\<close> does when nothing throws.\<close>

definition watch_event :: "pipeline \<Rightarrow> event" where
  "watch_event p = (case finalStream p of Some t \<Rightarrow> On_finish t | None \<Rightarrow> Resolve)"

text \<open>Streams and functions that never throw, around a given pipeline.\<close>

definition well_behaved :: "pipeline \<Rightarrow> behaviour" where
  "well_behaved p =
     \<lparr>factory = (\<lambda>config args context. Inr p), pipe_throws = (\<lambda>u d. None),
      on_throws = (\<lambda>s. None), teardown_outcome = Fulfilled\<rparr>"

definition sink_only :: pipeline where
  "sink_only = \<lparr>source = None, transforms = None, sink = Some 1\<rparr>"

definition source_only :: pipeline where
  "source_only = \<lparr>source = Some 0, transforms = None, sink = None\<rparr>"

definition empty_pipeline :: pipeline where
  "empty_pipeline = \<lparr>source = None, transforms = None, sink = None\<rparr>"

definition full_pipeline :: pipeline where
  "full_pipeline = \<lparr>source = Some 0, transforms = Some [1, 2], sink = Some 3\<rparr>"

definition staging_config :: config where
  "staging_config = new_config ''staging'' True [] None"

definition boom :: error where
  "boom = Error ''boom''"


text \<open>A process started with a given \<^verbatim>\<open>--stage\<close>, a script that does nothing, and the
  default validator \<^verbatim>\<open>args => undefined\<close>.\<close>

definition process_with_stage :: "string option \<Rightarrow> process" where
  "process_with_stage s =
     \<lparr>argv0 = ''node'', argv1 = ''script.js'', opt_stage = s, opt_dryRun = None,
      opt_argv = [], env = Map.empty\<rparr>"

definition idle_script :: "config \<Rightarrow> string list \<Rightarrow> event list \<times> promise" where
  "idle_script config args = ([], Fulfilled)"

definition accept_args :: "string list \<Rightarrow> bool \<Rightarrow> string option" where
  "accept_args args dry = None"




text \<open>The keys that \<^verbatim>\<open>ScriptEnvironment.get\<close> answers before it looks at the environment.\<close>

definition reserved_keys :: "string set" where
  "reserved_keys = {''stage'', ''dryRun'', ''args'', ''dir''}"

text \<open>A validator that asks for at least one argument.\<close>

definition require_file :: "string list \<Rightarrow> bool \<Rightarrow> string option" where
  "require_file args dry = (if args = [] then Some ''no file given'' else None)"

text \<open>A ScriptEnvironment as \<^verbatim>\<open>runScript\<close> constructs it for a stage.\<close>

definition script_environment_of :: "string \<Rightarrow> script_environment" where
  "script_environment_of stg =
     \<lparr>stage = stg, dryRun = True, argv = [], dir = None, environment = JUndefined\<rparr>"

text \<open>
  What a plain object inherits in Node: the members of \<^verbatim>\<open>Object.prototype\<close>. The
  prototypes of the other values are not listed; the examples below look properties up in
  plain objects only.
\<close>

definition Object_prototype :: "jsval \<Rightarrow> string \<Rightarrow> jsval option" where
  "Object_prototype v k =
     (case v of
        JObj ps \<Rightarrow>
          if k = ''constructor'' then Some (JFunction ''Object'')
          else if k = ''__proto__'' then Some JObjectPrototype
          else if k \<in> set [''__defineGetter__'', ''__defineSetter__'', ''hasOwnProperty'',
                              ''__lookupGetter__'', ''__lookupSetter__'', ''isPrototypeOf'',
                              ''propertyIsEnumerable'', ''toString'', ''valueOf'', ''toLocaleString'']
          then Some (JFunction k)
          else None
      | _ \<Rightarrow> None)"

text \<open>
  A ScriptEnvironment of the stage staging after \<^verbatim>\<open>initialize\<close>, for environment files
  that held a key \<^verbatim>\<open>stage\<close> and a nested object under that stage.
\<close>

definition loaded_environment :: script_environment where
  "loaded_environment =
     (script_environment_of ''staging'')
       \<lparr>environment := JObj [(''stage'', JStr ''prod''),
                              (''db'', JObj [(''host'', JStr ''localhost'')])]\<rparr>"

text \<open>An environment file with an entry for the stage prod only.\<close>

definition prod_only_file :: env_file where
  "prod_only_file = Contents (JObj [(''prod'', JObj [(''stage'', JStr ''int'')])])"






section \<open>The run of a pipeline, step by step\<close>

subsection \<open>Signals after settlement\<close>

text \<open>
  Once \<^verbatim>\<open>called\<close> is true, the listener and the \<^verbatim>\<open>catch\<close> block do nothing: no signal
  changes the state.
\<close>

lemma deliver_called: "called st \<Longrightarrow> deliver st sig = st"
  by (cases sig) (simp_all add: complete_def catch_block_def)

lemma foldl_deliver_called: "called st \<Longrightarrow> foldl deliver st sigs = st"
  by (induction sigs) (simp_all add: deliver_called)

subsection \<open>The wiring\<close>

text \<open>
  The loop only appends calls of \<^verbatim>\<open>pipe\<close> to the events and leaves the rest of the state
  alone, whether it throws or not. When it does not throw, the calls are those of the pairs
  \<open>(transforms[i - 1], transforms[i])\<close> from the first index on, with the pair of the source
  and the first transform in front when the loop starts at 0 and there is a source.
\<close>

lemma wire_transforms_shape:
  "wire_transforms b src ts is st = (st', r) \<Longrightarrow>
     \<exists>evs. st' = st\<lparr>events := events st @ evs\<rparr> \<and> (\<forall>e \<in> set evs. is_pipe e)"
proof (induction "is" arbitrary: st)
  case Nil
  then have "st' = st\<lparr>events := events st @ []\<rparr> \<and> (\<forall>e \<in> set []. is_pipe e)" by simp
  then show ?case by blast
next
  case (Cons i "is")
  show ?case
  proof (cases "i = 0 \<and> src = None")
    case True
    with Cons.prems have "wire_transforms b src ts is st = (st', r)" by simp
    from Cons.IH[OF this] show ?thesis .
  next
    case False
    define u where "u = (if i = 0 then the src else ts ! (i - 1))"
    define st1 where "st1 = st\<lparr>events := events st @ [Pipe u (ts ! i)]\<rparr>"
    have step: "(if i = 0 then (case src of None \<Rightarrow> (st, None) | Some s \<Rightarrow> pipe b s (ts ! i) st)
            else pipe b (ts ! (i - 1)) (ts ! i) st) = (st1, pipe_throws b u (ts ! i))"
      using False by (auto simp: u_def st1_def pipe_def emit_def)
    show ?thesis
    proof (cases "pipe_throws b u (ts ! i)")
      case None
      with Cons.prems step have "wire_transforms b src ts is st1 = (st', r)" by simp
      from Cons.IH[OF this] obtain evs where "st' = st1\<lparr>events := events st1 @ evs\<rparr>" "\<forall>e \<in> set evs. is_pipe e" by blast
      then have "st' = st\<lparr>events := events st @ (Pipe u (ts ! i) # evs)\<rparr> \<and> (\<forall>e \<in> set (Pipe u (ts ! i) # evs). is_pipe e)"
        by (simp add: st1_def)
      then show ?thesis by blast
    next
      case (Some e)
      with Cons.prems step have "st' = st1" by simp
      then have "st' = st\<lparr>events := events st @ [Pipe u (ts ! i)]\<rparr> \<and> (\<forall>e \<in> set [Pipe u (ts ! i)]. is_pipe e)"
        by (simp add: st1_def)
      then show ?thesis by blast
    qed
  qed
qed

lemma wire_from_pos:
  "0 < k \<Longrightarrow> k \<le> length ts \<Longrightarrow> wire_transforms b src ts [k..<length ts] st = (st', None) \<Longrightarrow>
     st' = st\<lparr>events := events st @ map pipe_event (zip (drop (k - 1) ts) (drop k ts))\<rparr>"
proof (induction "length ts - k" arbitrary: k st)
  case 0
  then show ?case by simp
next
  case (Suc n)
  then have klt: "k < length ts" by simp
  then have upt: "[k..<length ts] = k # [Suc k..<length ts]" by (simp add: upt_conv_Cons)
  define st1 where "st1 = st\<lparr>events := events st @ [Pipe (ts ! (k - 1)) (ts ! k)]\<rparr>"
  have p: "pipe b (ts ! (k - 1)) (ts ! k) st = (st1, pipe_throws b (ts ! (k - 1)) (ts ! k))"
    by (simp add: pipe_def emit_def st1_def)
  have w: "wire_transforms b src ts (k # [Suc k..<length ts]) st = (st', None)"
    using Suc.prems(3) upt by simp
  have k0: "k \<noteq> 0" using Suc.prems(1) by simp
  have nothrow: "pipe_throws b (ts ! (k - 1)) (ts ! k) = None"
    using w p k0 by (cases "pipe_throws b (ts ! (k - 1)) (ts ! k)") simp_all
  have rest: "wire_transforms b src ts [Suc k..<length ts] st1 = (st', None)"
    using w p k0 nothrow by simp
  have n: "n = length ts - Suc k" using Suc.hyps(2) by simp
  have le: "Suc k \<le> length ts" using klt by simp
  have ih: "st' = st1\<lparr>events := events st1 @ map pipe_event (zip (drop (Suc k - 1) ts) (drop (Suc k) ts))\<rparr>"
    using Suc.hyps(1)[OF n _ le rest] by simp
  have d1: "drop (k - 1) ts = ts ! (k - 1) # drop k ts"
    using Cons_nth_drop_Suc[of "k - 1" ts] k0 klt by simp
  have d2: "drop k ts = ts ! k # drop (Suc k) ts"
    using klt by (simp add: Cons_nth_drop_Suc)
  have z: "zip (drop (k - 1) ts) (drop k ts) = (ts ! (k - 1), ts ! k) # zip (drop k ts) (drop (Suc k) ts)"
    using d1 d2 by (metis zip_Cons_Cons)
  show ?case
    unfolding z ih by (simp add: st1_def pipe_event_def)
qed

lemma wire_from_start:
  assumes "wire_transforms b src ts [0..<length ts] st = (st', None)"
  shows "st' = st\<lparr>events := events st @ map pipe_event (loop_wired src ts)\<rparr>"
proof (cases ts)
  case Nil
  with assms show ?thesis by (simp add: loop_wired_def split: option.splits)
next
  case (Cons t ts')
  then have pos: "0 < length ts" by simp
  have upt: "[0..<length ts] = 0 # [1..<length ts]" using pos by (simp add: upt_conv_Cons)
  have tl: "zip (drop (1 - 1) ts) (drop 1 ts) = zip ts (tl ts)" by (simp add: drop_Suc)
  show ?thesis
  proof (cases src)
    case None
    with assms upt have "wire_transforms b src ts [1..<length ts] st = (st', None)" by simp
    from wire_from_pos[OF _ _ this] Cons have "st' = st\<lparr>events := events st @ map pipe_event (zip (drop (1 - 1) ts) (drop 1 ts))\<rparr>"
      by simp
    then show ?thesis unfolding tl using None by (simp add: loop_wired_def)
  next
    case (Some s)
    define st1 where "st1 = st\<lparr>events := events st @ [Pipe s (ts ! 0)]\<rparr>"
    have p: "pipe b s (ts ! 0) st = (st1, pipe_throws b s (ts ! 0))"
      by (simp add: pipe_def emit_def st1_def)
    have w: "wire_transforms b src ts (0 # [1..<length ts]) st = (st', None)"
      using assms upt by simp
    have nothrow: "pipe_throws b s (ts ! 0) = None"
      using w p Some by (cases "pipe_throws b s (ts ! 0)") simp_all
    have "wire_transforms b src ts [1..<length ts] st1 = (st', None)"
      using w p Some nothrow by simp
    from wire_from_pos[OF _ _ this] Cons have "st' = st1\<lparr>events := events st1 @ map pipe_event (zip (drop (1 - 1) ts) (drop 1 ts))\<rparr>"
      by simp
    then show ?thesis unfolding tl using Some Cons by (simp add: loop_wired_def st1_def pipe_event_def)
  qed
qed

text \<open>The same for the body of \<^verbatim>\<open>if (sink)\<close>, which makes one call of \<^verbatim>\<open>pipe\<close> or none.\<close>

lemma wire_sink_shape:
  "wire_sink b p st = (st', r) \<Longrightarrow>
     \<exists>evs. st' = st\<lparr>events := events st @ evs\<rparr> \<and> (\<forall>e \<in> set evs. is_pipe e)"
proof -
  assume a: "wire_sink b p st = (st', r)"
  have "st' = st\<lparr>events := events st @ []\<rparr> \<or> (\<exists>u d. st' = st\<lparr>events := events st @ [Pipe u d]\<rparr>)"
    using a by (auto simp: wire_sink_def pipe_def emit_def Let_def split: option.splits if_splits)
  then show ?thesis
  proof
    assume "st' = st\<lparr>events := events st @ []\<rparr>"
    then have "st' = st\<lparr>events := events st @ []\<rparr> \<and> (\<forall>e \<in> set []. is_pipe e)" by simp
    then show ?thesis by blast
  next
    assume "\<exists>u d. st' = st\<lparr>events := events st @ [Pipe u d]\<rparr>"
    then obtain u d where "st' = st\<lparr>events := events st @ [Pipe u d]\<rparr>" by blast
    then have "st' = st\<lparr>events := events st @ [Pipe u d]\<rparr> \<and> (\<forall>e \<in> set [Pipe u d]. is_pipe e)" by simp
    then show ?thesis by blast
  qed
qed

lemma wire_sink_ok:
  "wire_sink b p st = (st', None) \<Longrightarrow>
     st' = st\<lparr>events := events st @ map pipe_event (sink_wired p)\<rparr>"
  by (auto simp: wire_sink_def sink_wired_def pipe_def emit_def pipe_event_def Let_def last_conv_nth
           split: option.splits if_splits)

text \<open>
  The pairs piped by the loop followed by the pair piped into the sink are the adjacent
  pairs of the stages that are present.
\<close>

lemma zip_cons_snoc:
  "zip (t # ts @ [k]) (ts @ [k]) = zip (t # ts) ts @ [(last (t # ts), k)]"
  by (induction ts arbitrary: t) auto

lemma wired_split: "loop_wired (source p) (transforms_of p) @ sink_wired p = wired p"
proof (cases "transforms_of p")
  case Nil
  then show ?thesis
    by (simp add: loop_wired_def sink_wired_def wired_def adjacent_pairs_def chain_def present_def
             split: option.splits)
next
  case (Cons t ts)
  then have ne: "transforms_of p \<noteq> []" by simp
  show ?thesis
    using ne Cons
    by (simp add: loop_wired_def sink_wired_def wired_def adjacent_pairs_def chain_def present_def
                  zip_cons_snoc
             split: option.splits)
qed

subsection \<open>The try block and the executor\<close>

text \<open>
  Registering the listener, or resolving at once when there is no stream to listen to; then
  the whole \<^verbatim>\<open>try\<close> block: when it does not throw, the state it leaves is determined by the
  pipeline alone; when it throws, the run is neither called nor settled, no listener is
  registered and setup has not been called.
\<close>

lemma watch_ok:
  assumes "watch b p st = (st', None)" "\<not> called st" "settled st = Pending"
  shows "st' = st\<lparr>called := (finalStream p = None),
                  settled := (if finalStream p = None then Fulfilled else Pending),
                  listener := (if finalStream p = None then listener st else finalStream p),
                  events := events st @ [watch_event p]\<rparr>"
  using assms
  by (auto simp: watch_def watch_event_def complete_def resolve_def emit_def
           split: option.splits)

lemma watch_throws:
  assumes "watch b p st = (st', Some e)"
  shows "\<exists>t. st' = st\<lparr>events := events st @ [On_finish t]\<rparr>"
  using assms
  by (auto simp: watch_def complete_def emit_def split: option.splits)

lemma try_block_ok:
  assumes "try_block b c a p new_run = (st, None)"
  shows "st = \<lparr>called = (finalStream p = None),
               settled = (if finalStream p = None then Fulfilled else Pending),
               listener = finalStream p,
               events = map pipe_event (wired p) @ [watch_event p, Call_setup c a Context p]\<rparr>"
proof -
  obtain st1 r1 where w1: "wire_transforms b (source p) (transforms_of p) [0..<length (transforms_of p)] new_run = (st1, r1)"
    by (cases "wire_transforms b (source p) (transforms_of p) [0..<length (transforms_of p)] new_run")
  obtain st2 r2 where w2: "wire_sink b p st1 = (st2, r2)" by (cases "wire_sink b p st1")
  obtain st3 r3 where w3: "watch b p st2 = (st3, r3)" by (cases "watch b p st2")
  have r1: "r1 = None" using assms w1 by (cases r1) (simp_all add: try_block_def)
  have r2: "r2 = None" using assms w1 w2 r1 by (cases r2) (simp_all add: try_block_def)
  have r3: "r3 = None" using assms w1 w2 w3 r1 r2 by (cases r3) (simp_all add: try_block_def)
  have st: "st = emit (Call_setup c a Context p) st3"
    using assms w1 w2 w3 r1 r2 r3 by (simp add: try_block_def)
  have s1: "st1 = new_run\<lparr>events := events new_run @ map pipe_event (loop_wired (source p) (transforms_of p))\<rparr>"
    using wire_from_start w1 r1 by blast
  have s2: "st2 = st1\<lparr>events := events st1 @ map pipe_event (sink_wired p)\<rparr>"
    using wire_sink_ok w2 r2 by blast
  have e2: "events st2 = map pipe_event (wired p)"
    unfolding s2 s1 by (simp add: new_run_def wired_split[symmetric])
  have c2: "\<not> called st2" "settled st2 = Pending" "listener st2 = None"
    unfolding s2 s1 by (simp_all add: new_run_def)
  have s3: "st3 = st2\<lparr>called := (finalStream p = None),
                  settled := (if finalStream p = None then Fulfilled else Pending),
                  listener := (if finalStream p = None then listener st2 else finalStream p),
                  events := events st2 @ [watch_event p]\<rparr>"
    using watch_ok w3 r3 c2 by blast
  show ?thesis
    unfolding st s3 using e2 c2 by (simp add: emit_def)
qed

lemma try_block_throws:
  assumes "try_block b c a p new_run = (st, Some e)"
  shows "\<not> called st \<and> settled st = Pending \<and> listener st = None
         \<and> (\<forall>ev \<in> set (events st). is_pipe ev \<or> is_on_finish ev)"
proof -
  obtain st1 r1 where w1: "wire_transforms b (source p) (transforms_of p) [0..<length (transforms_of p)] new_run = (st1, r1)"
    by (cases "wire_transforms b (source p) (transforms_of p) [0..<length (transforms_of p)] new_run")
  obtain st2 r2 where w2: "wire_sink b p st1 = (st2, r2)" by (cases "wire_sink b p st1")
  obtain st3 r3 where w3: "watch b p st2 = (st3, r3)" by (cases "watch b p st2")
  obtain evs1 where s1: "st1 = new_run\<lparr>events := events new_run @ evs1\<rparr>" "\<forall>ev \<in> set evs1. is_pipe ev"
    using wire_transforms_shape[OF w1] by blast
  obtain evs2 where s2: "st2 = st1\<lparr>events := events st1 @ evs2\<rparr>" "\<forall>ev \<in> set evs2. is_pipe ev"
    using wire_sink_shape[OF w2] by blast
  have g1: "\<not> called st1 \<and> settled st1 = Pending \<and> listener st1 = None
         \<and> (\<forall>ev \<in> set (events st1). is_pipe ev \<or> is_on_finish ev)"
    using s1 by (simp add: new_run_def)
  have g2: "\<not> called st2 \<and> settled st2 = Pending \<and> listener st2 = None
         \<and> (\<forall>ev \<in> set (events st2). is_pipe ev \<or> is_on_finish ev)"
    using s2 g1 by auto
  show ?thesis
  proof (cases r1)
    case (Some e1)
    then have "st = st1" using assms w1 by (simp add: try_block_def)
    then show ?thesis using g1 by simp
  next
    case None
    note r1 = this
    show ?thesis
    proof (cases r2)
      case (Some e2)
      then have "st = st2" using assms w1 w2 r1 by (simp add: try_block_def)
      then show ?thesis using g2 by simp
    next
      case None
      note r2 = this
      have r3: "r3 = Some e \<and> st = st3"
        using assms w1 w2 w3 r1 r2 by (cases r3) (simp_all add: try_block_def)
      then obtain t where "st3 = st2\<lparr>events := events st2 @ [On_finish t]\<rparr>"
        using watch_throws w3 by blast
      then show ?thesis using g2 r3 by auto
    qed
  qed
qed

subsection \<open>The outcome of a run\<close>

text \<open>
  A run that is listening on a stream and has not settled ends as the first of that
  stream's \<^verbatim>\<open>'finish'\<close> and an error of setup decides. With the two lemmas above this gives
  the three shapes of a run: the \<^verbatim>\<open>try\<close> block threw, it resolved at once, or it listens.
\<close>

lemma run_listening:
  assumes "\<not> called st" "settled st = Pending" "listener st = Some t"
  shows "foldl deliver st sigs =
           st\<lparr>called := (first_signal (Some t) sigs \<noteq> Pending),
              settled := first_signal (Some t) sigs,
              events := events st @ settle_events (first_signal (Some t) sigs)\<rparr>"
proof (induction sigs)
  case Nil
  then show ?case using assms by simp
next
  case (Cons sg sigs)
  show ?case
  proof (cases sg)
    case (Finish s)
    show ?thesis
    proof (cases "s = t")
      case True
      have d: "deliver st sg = st\<lparr>called := True, settled := Fulfilled, events := events st @ [Resolve]\<rparr>"
        using assms Finish True by (simp add: complete_def resolve_def emit_def)
      have "foldl deliver st (sg # sigs) = deliver st sg"
        using d by (simp add: foldl_deliver_called)
      then show ?thesis using d Finish True by simp
    next
      case False
      then have "deliver st sg = st" using assms Finish by simp
      then show ?thesis using Cons Finish False by simp
    qed
  next
    case (Setup_rejected e)
    have d: "deliver st sg = st\<lparr>called := True, settled := Rejected e, events := events st @ [Reject e]\<rparr>"
      using assms Setup_rejected by (simp add: catch_block_def reject_def emit_def)
    have "foldl deliver st (sg # sigs) = deliver st sg"
      using d by (simp add: foldl_deliver_called)
    then show ?thesis using d Setup_rejected by simp
  next
    case Setup_fulfilled
    then show ?thesis using Cons by simp
  qed
qed

lemma executor_throws:
  assumes "try_block b c a p new_run = (st0, Some e)"
  shows "executor b c a p = st0\<lparr>called := True, settled := Rejected e, events := events st0 @ [Reject e]\<rparr>"
  using assms try_block_throws[OF assms]
  by (simp add: executor_def catch_block_def reject_def emit_def)

lemma run_throws:
  assumes "try_block b c a p new_run = (st0, Some e)"
  shows "run b c a p sigs = st0\<lparr>called := True, settled := Rejected e, events := events st0 @ [Reject e]\<rparr>"
  unfolding run_def executor_throws[OF assms] by (simp add: foldl_deliver_called)

lemma run_cases [case_names throws immediate listening]:
  obtains
    (throws) st0 e where
      "try_block b c a p new_run = (st0, Some e)"
      "\<forall>ev \<in> set (events st0). is_pipe ev \<or> is_on_finish ev"
      "\<And>sigs. run b c a p sigs =
          \<lparr>called = True, settled = Rejected e, listener = None, events = events st0 @ [Reject e]\<rparr>"
  | (immediate) st0 where
      "try_block b c a p new_run = (st0, None)"
      "finalStream p = None"
      "\<And>sigs. run b c a p sigs =
          \<lparr>called = True, settled = Fulfilled, listener = None,
           events = map pipe_event (wired p) @ [Resolve, Call_setup c a Context p]\<rparr>"
  | (listening) st0 t where
      "try_block b c a p new_run = (st0, None)"
      "finalStream p = Some t"
      "\<And>sigs. run b c a p sigs =
          \<lparr>called = (first_signal (Some t) sigs \<noteq> Pending),
           settled = first_signal (Some t) sigs,
           listener = Some t,
           events = map pipe_event (wired p) @ [On_finish t, Call_setup c a Context p]
                      @ settle_events (first_signal (Some t) sigs)\<rparr>"
proof -
  obtain st0 r where tb: "try_block b c a p new_run = (st0, r)"
    by (cases "try_block b c a p new_run")
  show thesis
  proof (cases r)
    case (Some e)
    have t: "try_block b c a p new_run = (st0, Some e)" using tb Some by simp
    have sh: "\<not> called st0 \<and> settled st0 = Pending \<and> listener st0 = None
         \<and> (\<forall>ev \<in> set (events st0). is_pipe ev \<or> is_on_finish ev)"
      using try_block_throws[OF t] .
    have "\<And>sigs. run b c a p sigs =
          \<lparr>called = True, settled = Rejected e, listener = None, events = events st0 @ [Reject e]\<rparr>"
      using run_throws[OF t] sh by simp
    then show ?thesis using throws t sh by blast
  next
    case None
    have t: "try_block b c a p new_run = (st0, None)" using tb None by simp
    note ok = try_block_ok[OF t]
    have ex: "executor b c a p = st0" using t by (simp add: executor_def)
    show ?thesis
    proof (cases "finalStream p")
      case None
      have c0: "called st0" using ok None by simp
      have "\<And>sigs. run b c a p sigs =
          \<lparr>called = True, settled = Fulfilled, listener = None,
           events = map pipe_event (wired p) @ [Resolve, Call_setup c a Context p]\<rparr>"
        unfolding run_def ex using foldl_deliver_called[OF c0] ok None
        by (simp add: watch_event_def)
      then show ?thesis using immediate t None by blast
    next
      case (Some s)
      have pre: "\<not> called st0" "settled st0 = Pending" "listener st0 = Some s"
        using ok Some by simp_all
      have "\<And>sigs. run b c a p sigs =
          \<lparr>called = (first_signal (Some s) sigs \<noteq> Pending),
           settled = first_signal (Some s) sigs,
           listener = Some s,
           events = map pipe_event (wired p) @ [On_finish s, Call_setup c a Context p]
                      @ settle_events (first_signal (Some s) sigs)\<rparr>"
        unfolding run_def ex run_listening[OF pre] using ok Some
        by (simp add: watch_event_def)
      then show ?thesis using listening t Some by blast
    qed
  qed
qed

text \<open>The definitions to unfold when a run is evaluated on an example.\<close>

lemmas run_example_defs =
  pipes_script_def run_def executor_def try_block_def watch_def wire_sink_def finalStream_def
  transforms_of_def pipe_def emit_def complete_def resolve_def reject_def catch_block_def
  new_run_def well_behaved_def

subsection \<open>Teardown\<close>

text \<open>
  The executor never calls teardown; a resolved run has called \<^verbatim>\<open>resolve\<close>; the script
  calls teardown once after a resolved run and not otherwise.
\<close>

lemma no_teardown_in_run: "filter is_teardown (events (run b c a p sigs)) = []"
proof (cases rule: run_cases[of b c a p])
  case (throws st0 e)
  have "\<forall>ev \<in> set (events st0). \<not> is_teardown ev"
  proof
    fix ev assume "ev \<in> set (events st0)"
    then have "is_pipe ev \<or> is_on_finish ev" using throws(2) by blast
    then show "\<not> is_teardown ev" by (cases ev) simp_all
  qed
  then show ?thesis using throws(3)[of sigs] by (simp add: filter_empty_conv)
next
  case (immediate st0)
  then show ?thesis by (simp add: filter_empty_conv pipe_event_def)
next
  case (listening st0 t)
  then show ?thesis
    by (cases "first_signal (Some t) sigs") (simp_all add: filter_empty_conv pipe_event_def)
qed

lemma resolve_in_run: "settled (run b c a p sigs) = Fulfilled \<Longrightarrow> Resolve \<in> set (events (run b c a p sigs))"
proof (cases rule: run_cases[of b c a p])
  case (throws st0 e)
  assume "settled (run b c a p sigs) = Fulfilled"
  then show ?thesis using throws(3)[of sigs] by simp
next
  case (immediate st0)
  then show ?thesis by simp
next
  case (listening st0 t)
  assume "settled (run b c a p sigs) = Fulfilled"
  then show ?thesis using listening(3)[of sigs] by simp
qed


text \<open>The characters of path syntax are needed for \<^verbatim>\<open>reIsDeepProp\<close> to match.\<close>

lemma no_path_syntax:
  "CHR ''.'' \<notin> set key \<Longrightarrow> CHR ''['' \<notin> set key \<Longrightarrow> \<not> reIsDeepProp key"
  by (induction key) auto

text \<open>The lookup of a key without path syntax in an object is one property access.\<close>

lemma lodash_get_plain_key:
  assumes "CHR ''.'' \<notin> set key" "CHR ''['' \<notin> set key"
  shows "lodash_get inherited (JObj ps) key dflt
           = (if get_property inherited (JObj ps) key = JUndefined then dflt
              else get_property inherited (JObj ps) key)"
  using no_path_syntax[OF assms]
  by (simp add: lodash_get_def baseGet_def castPath_def isKey_def Let_def)


lemma teardown_calls:
  assumes "factory b config args Context = Inr p"
  shows "filter is_teardown (fst (pipes_script b sigs config args))
           = (if settled (run b config args p sigs) = Fulfilled
              then [Call_teardown config args Context p] else [])"
  using assms no_teardown_in_run[of b config args p sigs]
  by (cases "settled (run b config args p sigs)") (simp_all add: pipes_script_def)

text \<open>The \<^verbatim>\<open>try\<close> block on a pipeline that is a sink alone.\<close>

lemma sink_only_try_block:
  assumes "source p = None" "transforms_of p = []" "sink p = Some k"
  shows "try_block b c a p new_run =
           (case on_throws b k of
              Some e \<Rightarrow> (new_run\<lparr>events := [On_finish k]\<rparr>, Some e)
            | None \<Rightarrow> (\<lparr>called = False, settled = Pending, listener = Some k,
                          events = [On_finish k, Call_setup c a Context p]\<rparr>, None))"
  using assms
  by (simp add: try_block_def wire_sink_def watch_def finalStream_def emit_def new_run_def
           split: option.splits)

text \<open>
  The events of \<^verbatim>\<open>runPipes\<close> for a valid stage and accepted arguments: those of
  \<^verbatim>\<open>runScript\<close>, then those of the pipeline script, then the error that the \<^verbatim>\<open>catch\<close> of
  \<^verbatim>\<open>runScript\<close> prints when the script's promise rejects.
\<close>

lemma runPipes_trace:
  assumes "opt_stage proc = Some s" "s \<in> {''int'', ''staging'', ''prod''}"
    and "\<not> message_given (v (opt_argv proc) (dryRun_option proc))"
  shows "\<exists>config. trace (runPipes b sigs d v proc)
           = [Set_env ''AWS_PROFILE'' (if s = ''prod'' then ''prod-pay'' else ''classy-test''),
              Validate_args (opt_argv proc) (dryRun_option proc),
              New_config config, Call_script config (opt_argv proc)]
             @ fst (pipes_script b sigs config (opt_argv proc))
             @ (case snd (pipes_script b sigs config (opt_argv proc)) of
                  Rejected e \<Rightarrow> [Console_error_caught e] | _ \<Rightarrow> [])"
  using assms
  by (auto simp: runPipes_def runScript_def aws_profile_def Let_def split: prod.splits)

section \<open>The claims\<close>

subsection \<open>C1: teardown\<close>

text \<open>
  C1 says that the teardown hook is called after the run settles whether it settled with
  success or with an error, and in particular exactly once when the setup hook throws or
  rejects. The code awaits the promise and calls \<^verbatim>\<open>teardown\<close> in the statement after, with
  no \<^verbatim>\<open>finally\<close>: a rejected promise makes the \<^verbatim>\<open>await\<close> throw and the call is skipped.
  Here a pipeline of one sink, whose setup hook rejects: the run rejects and the trace ends
  with the rejection, with no call of teardown.
\<close>

theorem teardown_skipped_when_setup_rejects:
  "pipes_script (well_behaved sink_only) [Setup_rejected boom] staging_config []
     = ([Call_factory staging_config [] Context, On_finish 1,
         Call_setup staging_config [] Context sink_only, Reject boom],
        Rejected boom)"
  by (simp add: run_example_defs sink_only_def)

text \<open>
  C1 as amended: for a pipeline \<open>p\<close> returned by the factory, teardown is called exactly
  once, with the config, args, context and pipeline of the run, when the promise of the run
  is resolved, and it is the last call of the run, after the call of \<^verbatim>\<open>resolve\<close>; it is not
  called when the promise is rejected (the script's promise then rejects with that error)
  nor while it is pending.
\<close>

theorem teardown_runs_iff_resolved:
  assumes "factory b config args Context = Inr p"
  shows "filter is_teardown (fst (pipes_script b sigs config args))
           = (if settled (run b config args p sigs) = Fulfilled
              then [Call_teardown config args Context p] else [])
       \<and> (settled (run b config args p sigs) = Fulfilled \<longrightarrow>
            fst (pipes_script b sigs config args)
              = Call_factory config args Context # events (run b config args p sigs)
                  @ [Call_teardown config args Context p]
            \<and> Resolve \<in> set (events (run b config args p sigs)))
       \<and> (\<forall>e. settled (run b config args p sigs) = Rejected e \<longrightarrow>
            pipes_script b sigs config args
              = (Call_factory config args Context # events (run b config args p sigs), Rejected e))"
proof -
  note nt = no_teardown_in_run[of b config args p sigs]
  show ?thesis
  proof (cases "settled (run b config args p sigs)")
    case Pending
    then show ?thesis using assms nt by (simp add: pipes_script_def)
  next
    case Fulfilled
    then show ?thesis using assms nt resolve_in_run[OF Fulfilled] by (simp add: pipes_script_def)
  next
    case (Rejected e)
    then show ?thesis using assms nt by (simp add: pipes_script_def)
  qed
qed

theorem teardown_runs_iff_resolved_witness:
  "factory (well_behaved full_pipeline) staging_config [] Context = Inr full_pipeline
   \<and> settled (run (well_behaved full_pipeline) staging_config [] full_pipeline [Finish 3]) = Fulfilled
   \<and> filter is_teardown (fst (pipes_script (well_behaved full_pipeline) [Finish 3] staging_config []))
       = [Call_teardown staging_config [] Context full_pipeline]
   \<and> settled (run (well_behaved full_pipeline) staging_config [] full_pipeline [Setup_rejected boom])
       = Rejected boom
   \<and> filter is_teardown
         (fst (pipes_script (well_behaved full_pipeline) [Setup_rejected boom] staging_config [])) = []"
proof -
  have f: "factory (well_behaved full_pipeline) staging_config [] Context = Inr full_pipeline"
    by (simp add: well_behaved_def)
  have s1: "settled (run (well_behaved full_pipeline) staging_config [] full_pipeline [Finish 3])
              = Fulfilled"
    by (simp add: run_example_defs full_pipeline_def)
  have s2: "settled (run (well_behaved full_pipeline) staging_config [] full_pipeline
              [Setup_rejected boom]) = Rejected boom"
    by (simp add: run_example_defs full_pipeline_def)
  have t1: "filter is_teardown
              (fst (pipes_script (well_behaved full_pipeline) [Finish 3] staging_config []))
            = [Call_teardown staging_config [] Context full_pipeline]"
    using teardown_runs_iff_resolved[OF f, of "[Finish 3]", THEN conjunct1] s1 by simp
  have t2: "filter is_teardown
              (fst (pipes_script (well_behaved full_pipeline) [Setup_rejected boom] staging_config []))
            = []"
    using teardown_runs_iff_resolved[OF f, of "[Setup_rejected boom]", THEN conjunct1] s2 by simp
  show ?thesis
    using f s1 s2 t1 t2 by blast
qed

subsection \<open>C2: settlement\<close>



subsection \<open>C3: the terminal stage\<close>

text \<open>
  C3 says that the terminal stage is the sink, else the last transform, else the source.
  The variable \<^verbatim>\<open>finalStream\<close> of the code is a \<^verbatim>\<open>Writable\<close>: it starts as the last
  transform or undefined and is replaced by the sink; the source never enters it. For a
  pipeline of one source the code has no terminal stage, where the claim names the source,
  and the run is resolved at once.
\<close>

theorem source_is_never_terminal:
  "finalStream source_only = None \<and> terminal_stage source_only = Some 0
   \<and> events (executor (well_behaved source_only) staging_config [] source_only)
       = [Resolve, Call_setup staging_config [] Context source_only]"
  by (simp add: run_example_defs terminal_stage_def source_only_def)

text \<open>
  C3 as amended: the terminal stage is the sink if present, else the last transform if
  there is one, else none, also when a source is present; this is the terminal stage of the
  claim whenever the pipeline is not a source alone. When the wiring does not throw, the
  listener of \<^verbatim>\<open>'finish'\<close> is registered on that stage, after the wiring and before the call
  of setup, and the run stays pending; when there is no terminal stage (the empty pipeline
  and the pipeline of one source), \<^verbatim>\<open>resolve\<close> is called at that point instead.
\<close>

theorem terminal_is_sink_or_last_transform:
  "finalStream p = (case sink p of Some k \<Rightarrow> Some k
                    | None \<Rightarrow> if transforms_of p = [] then None else Some (last (transforms_of p)))
   \<and> (source p = None \<or> transforms_of p \<noteq> [] \<or> sink p \<noteq> None \<longrightarrow> finalStream p = terminal_stage p)
   \<and> (snd (try_block b c a p new_run) = None \<longrightarrow>
        listener (executor b c a p) = finalStream p
        \<and> (\<forall>t. finalStream p = Some t \<longrightarrow>
              settled (executor b c a p) = Pending
              \<and> events (executor b c a p)
                  = map pipe_event (wired p) @ [On_finish t, Call_setup c a Context p])
        \<and> (finalStream p = None \<longrightarrow>
              settled (executor b c a p) = Fulfilled
              \<and> events (executor b c a p)
                  = map pipe_event (wired p) @ [Resolve, Call_setup c a Context p]))"
proof -
  have a1: "finalStream p = (case sink p of Some k \<Rightarrow> Some k
                    | None \<Rightarrow> if transforms_of p = [] then None else Some (last (transforms_of p)))"
    by (simp add: finalStream_def Let_def last_conv_nth split: option.splits)
  have a2: "source p = None \<or> transforms_of p \<noteq> [] \<or> sink p \<noteq> None \<longrightarrow> finalStream p = terminal_stage p"
    unfolding a1 by (auto simp: terminal_stage_def split: option.splits)
  have a3: "snd (try_block b c a p new_run) = None \<longrightarrow>
        listener (executor b c a p) = finalStream p
        \<and> (\<forall>t. finalStream p = Some t \<longrightarrow>
              settled (executor b c a p) = Pending
              \<and> events (executor b c a p)
                  = map pipe_event (wired p) @ [On_finish t, Call_setup c a Context p])
        \<and> (finalStream p = None \<longrightarrow>
              settled (executor b c a p) = Fulfilled
              \<and> events (executor b c a p)
                  = map pipe_event (wired p) @ [Resolve, Call_setup c a Context p])"
  proof
    assume ok: "snd (try_block b c a p new_run) = None"
    then obtain st0 where t: "try_block b c a p new_run = (st0, None)"
      by (cases "try_block b c a p new_run") simp
    have ex: "executor b c a p = st0" using t by (simp add: executor_def)
    show "listener (executor b c a p) = finalStream p
        \<and> (\<forall>t. finalStream p = Some t \<longrightarrow>
              settled (executor b c a p) = Pending
              \<and> events (executor b c a p)
                  = map pipe_event (wired p) @ [On_finish t, Call_setup c a Context p])
        \<and> (finalStream p = None \<longrightarrow>
              settled (executor b c a p) = Fulfilled
              \<and> events (executor b c a p)
                  = map pipe_event (wired p) @ [Resolve, Call_setup c a Context p])"
      unfolding ex using try_block_ok[OF t] by (simp add: watch_event_def)
  qed
  show ?thesis using a1 a2 a3 by blast
qed

theorem terminal_is_sink_or_last_transform_witness:
  "snd (try_block (well_behaved full_pipeline) staging_config [] full_pipeline new_run) = None
   \<and> finalStream full_pipeline = Some 3
   \<and> terminal_stage full_pipeline = Some 3
   \<and> listener (executor (well_behaved full_pipeline) staging_config [] full_pipeline) = Some 3
   \<and> events (executor (well_behaved full_pipeline) staging_config [] full_pipeline)
        = [Pipe 0 1, Pipe 1 2, Pipe 2 3, On_finish 3, Call_setup staging_config [] Context full_pipeline]
   \<and> snd (try_block (well_behaved empty_pipeline) staging_config [] empty_pipeline new_run) = None
   \<and> finalStream empty_pipeline = None
   \<and> events (executor (well_behaved empty_pipeline) staging_config [] empty_pipeline)
        = [Resolve, Call_setup staging_config [] Context empty_pipeline]"
proof -
  have t: "snd (try_block (well_behaved full_pipeline) staging_config [] full_pipeline new_run) = None"
    by (simp add: run_example_defs full_pipeline_def)
  have s: "source full_pipeline = None \<or> transforms_of full_pipeline \<noteq> [] \<or> sink full_pipeline \<noteq> None"
    by (simp add: full_pipeline_def)
  have ts: "terminal_stage full_pipeline = Some 3"
    by (simp add: terminal_stage_def transforms_of_def full_pipeline_def)
  have w: "map pipe_event (wired full_pipeline) = [Pipe 0 1, Pipe 1 2, Pipe 2 3]"
    by (simp add: wired_def adjacent_pairs_def chain_def present_def transforms_of_def
                  pipe_event_def full_pipeline_def)
  note th = terminal_is_sink_or_last_transform
              [of full_pipeline "well_behaved full_pipeline" staging_config "[]"]
  have f: "finalStream full_pipeline = Some 3"
    using th[THEN conjunct2, THEN conjunct1, THEN mp, OF s] ts by simp
  note ex = th[THEN conjunct2, THEN conjunct2, THEN mp, OF t]
  have l: "listener (executor (well_behaved full_pipeline) staging_config [] full_pipeline) = Some 3"
    using ex f by simp
  have e: "events (executor (well_behaved full_pipeline) staging_config [] full_pipeline)
        = [Pipe 0 1, Pipe 1 2, Pipe 2 3, On_finish 3, Call_setup staging_config [] Context full_pipeline]"
    using ex f w by simp
  have te: "snd (try_block (well_behaved empty_pipeline) staging_config [] empty_pipeline new_run) = None"
    by (simp add: run_example_defs empty_pipeline_def)
  have we: "map pipe_event (wired empty_pipeline) = []"
    by (simp add: wired_def adjacent_pairs_def chain_def present_def transforms_of_def
                  empty_pipeline_def)
  have se: "source empty_pipeline = None \<or> transforms_of empty_pipeline \<noteq> [] \<or> sink empty_pipeline \<noteq> None"
    by (simp add: empty_pipeline_def)
  have tse: "terminal_stage empty_pipeline = None"
    by (simp add: terminal_stage_def transforms_of_def empty_pipeline_def)
  note the = terminal_is_sink_or_last_transform
              [of empty_pipeline "well_behaved empty_pipeline" staging_config "[]"]
  have fe: "finalStream empty_pipeline = None"
    using the[THEN conjunct2, THEN conjunct1, THEN mp, OF se] tse by simp
  have ee: "events (executor (well_behaved empty_pipeline) staging_config [] empty_pipeline)
        = [Resolve, Call_setup staging_config [] Context empty_pipeline]"
    using the[THEN conjunct2, THEN conjunct2, THEN mp, OF te] fe we by simp
  show ?thesis
    using t f ts l e te fe ee by blast
qed

subsection \<open>C4: a pipeline of one sink\<close>

text \<open>
  C4 says that a pipeline that is only a sink completes immediately and that teardown then
  runs. The sink is the terminal stage, so the code registers the listener on it and waits:
  with no signal the run stays pending and teardown is not called.
\<close>

theorem sink_only_does_not_complete_immediately:
  "settled (executor (well_behaved sink_only) staging_config [] sink_only) = Pending
   \<and> pipes_script (well_behaved sink_only) [] staging_config []
       = ([Call_factory staging_config [] Context, On_finish 1,
           Call_setup staging_config [] Context sink_only], Pending)"
  by (simp add: run_example_defs sink_only_def)

text \<open>
  C4 as amended: for a pipeline that is only a sink no call of \<^verbatim>\<open>pipe\<close> is made; the sink
  is the terminal stage; when registering the listener does not throw, the run is pending
  once setup has been called and its outcome is that of the first of the sink's
  \<^verbatim>\<open>'finish'\<close> and an error of setup; teardown is called, once, exactly when the run is
  resolved.
\<close>

theorem sink_only_waits_for_finish:
  assumes "source p = None" "transforms_of p = []" "sink p = Some k"
  shows "filter is_pipe (events (run b c a p sigs)) = []
       \<and> finalStream p = Some k
       \<and> (on_throws b k = None \<longrightarrow>
            events (executor b c a p) = [On_finish k, Call_setup c a Context p]
            \<and> settled (executor b c a p) = Pending
            \<and> settled (run b c a p sigs) = first_signal (Some k) sigs)
       \<and> (factory b c a Context = Inr p \<longrightarrow>
            filter is_teardown (fst (pipes_script b sigs c a))
              = (if settled (run b c a p sigs) = Fulfilled
                 then [Call_teardown c a Context p] else []))"
proof -
  note tb = sink_only_try_block[OF assms, of b c a]
  have fs: "finalStream p = Some k" using assms by (simp add: finalStream_def)
  have td: "factory b c a Context = Inr p \<longrightarrow>
            filter is_teardown (fst (pipes_script b sigs c a))
              = (if settled (run b c a p sigs) = Fulfilled
                 then [Call_teardown c a Context p] else [])"
    using teardown_calls by blast
  show ?thesis
  proof (cases "on_throws b k")
    case (Some e)
    then have t: "try_block b c a p new_run = (new_run\<lparr>events := [On_finish k]\<rparr>, Some e)"
      using tb by simp
    have "filter is_pipe (events (run b c a p sigs)) = []"
      unfolding run_throws[OF t] by simp
    then show ?thesis using fs td Some by simp
  next
    case None
    define st0 where "st0 = \<lparr>called = False, settled = Pending, listener = Some k,
                          events = [On_finish k, Call_setup c a Context p]\<rparr>"
    have t: "try_block b c a p new_run = (st0, None)" using tb None by (simp add: st0_def)
    have ex: "executor b c a p = st0" using t by (simp add: executor_def)
    have pre: "\<not> called st0" "settled st0 = Pending" "listener st0 = Some k"
      by (simp_all add: st0_def)
    have r: "run b c a p sigs = st0\<lparr>called := (first_signal (Some k) sigs \<noteq> Pending),
              settled := first_signal (Some k) sigs,
              events := events st0 @ settle_events (first_signal (Some k) sigs)\<rparr>"
      unfolding run_def ex using run_listening[OF pre] .
    have np: "filter is_pipe (events (run b c a p sigs)) = []"
      unfolding r by (cases "first_signal (Some k) sigs") (simp_all add: st0_def)
    have e1: "events (executor b c a p) = [On_finish k, Call_setup c a Context p]"
      "settled (executor b c a p) = Pending"
      unfolding ex by (simp_all add: st0_def)
    have e2: "settled (run b c a p sigs) = first_signal (Some k) sigs"
      unfolding r by simp
    show ?thesis using np fs e1 e2 td by simp
  qed
qed

theorem sink_only_waits_for_finish_witness:
  "source sink_only = None \<and> transforms_of sink_only = [] \<and> sink sink_only = Some 1
   \<and> on_throws (well_behaved sink_only) 1 = None
   \<and> factory (well_behaved sink_only) staging_config [] Context = Inr sink_only
   \<and> settled (run (well_behaved sink_only) staging_config [] sink_only [Setup_fulfilled, Finish 1])
        = Fulfilled
   \<and> filter is_teardown
        (fst (pipes_script (well_behaved sink_only) [Setup_fulfilled, Finish 1] staging_config []))
        = [Call_teardown staging_config [] Context sink_only]"
proof -
  have h: "source sink_only = None" "transforms_of sink_only = []" "sink sink_only = Some 1"
    by (simp_all add: sink_only_def transforms_of_def)
  have o: "on_throws (well_behaved sink_only) 1 = None"
    by (simp add: well_behaved_def)
  have f: "factory (well_behaved sink_only) staging_config [] Context = Inr sink_only"
    by (simp add: well_behaved_def)
  note th = sink_only_waits_for_finish
              [OF h, of "well_behaved sink_only" staging_config "[]" "[Setup_fulfilled, Finish 1]"]
  have s: "settled (run (well_behaved sink_only) staging_config [] sink_only [Setup_fulfilled, Finish 1])
        = Fulfilled"
    using th o by simp
  have t: "filter is_teardown
        (fst (pipes_script (well_behaved sink_only) [Setup_fulfilled, Finish 1] staging_config []))
        = [Call_teardown staging_config [] Context sink_only]"
    using th f s by simp
  show ?thesis using h o f s t by blast
qed

subsection \<open>C5: argument errors\<close>

text \<open>
  C5 says that a missing or an invalid stage prints the usage message and returns, a plain
  return and not a thrown error. For a stage that is given and is not one of int, staging
  and prod the code executes \<^verbatim>\<open>throw new Error(`Invalid stage ${argStage}`)\<close>: the call
  throws and nothing is printed.
\<close>

theorem invalid_stage_throws:
  "completion (runScript idle_script ''[files]'' accept_args (process_with_stage (Some ''dev'')))
     = Threw (Error ''Invalid stage dev'')
   \<and> trace (runScript idle_script ''[files]'' accept_args (process_with_stage (Some ''dev''))) = []"
  by (simp add: runScript_def process_with_stage_def)

text \<open>
  C5 as amended: when the stage is missing (not given, or empty) the usage message is
  printed to standard error and the call returns; when the stage is given and is not one
  of int, staging and prod the call throws the error "Invalid stage ..." and prints
  nothing; when the stage is valid and the validator returns a non-empty message, the
  message and the usage are printed and the call returns. In the three cases these are all
  the events of the run (with, in the third, the assignment of AWS_PROFILE and the call of
  the validator): no Config is constructed and the script is not called.
\<close>

theorem argument_errors_abort:
  "(opt_stage proc = None \<or> opt_stage proc = Some [] \<longrightarrow>
      completion (runScript f d v proc) = Returned
      \<and> trace (runScript f d v proc)
          = [Console_error (''Please specify a stage'' @ newline @ usage proc d)])
   \<and> (\<forall>s. opt_stage proc = Some s \<and> s \<noteq> [] \<and> s \<notin> {''int'', ''staging'', ''prod''} \<longrightarrow>
         completion (runScript f d v proc) = Threw (Error (''Invalid stage '' @ s))
         \<and> trace (runScript f d v proc) = [])
   \<and> (\<forall>s m. opt_stage proc = Some s \<and> s \<in> {''int'', ''staging'', ''prod''}
            \<and> v (opt_argv proc) (dryRun_option proc) = Some m \<and> m \<noteq> [] \<longrightarrow>
         completion (runScript f d v proc) = Returned
         \<and> trace (runScript f d v proc)
             = [Set_env ''AWS_PROFILE'' (if s = ''prod'' then ''prod-pay'' else ''classy-test''),
                Validate_args (opt_argv proc) (dryRun_option proc),
                Console_error (''Invalid arguments to script: '' @ m @ newline @ usage proc d)])"
  by (auto simp: runScript_def aws_profile_def Let_def)

theorem argument_errors_abort_witness:
  "trace (runScript idle_script ''[files]'' accept_args (process_with_stage None))
     = [Console_error (''Please specify a stage'' @ newline
                        @ usage (process_with_stage None) ''[files]'')]
   \<and> completion (runScript idle_script ''[files]'' accept_args (process_with_stage (Some ''dev'')))
       = Threw (Error ''Invalid stage dev'')
   \<and> trace (runScript idle_script ''[files]'' require_file (process_with_stage (Some ''prod'')))
       = [Set_env ''AWS_PROFILE'' ''prod-pay'', Validate_args [] True,
          Console_error (''Invalid arguments to script: no file given'' @ newline
                           @ usage (process_with_stage (Some ''prod'')) ''[files]'')]"
proof -
  have h1: "opt_stage (process_with_stage None) = None
            \<or> opt_stage (process_with_stage None) = Some []"
    by (simp add: process_with_stage_def)
  have h2: "opt_stage (process_with_stage (Some ''dev'')) = Some ''dev'' \<and> ''dev'' \<noteq> []
            \<and> ''dev'' \<notin> {''int'', ''staging'', ''prod''}"
    by (simp add: process_with_stage_def)
  have dry: "dryRun_option (process_with_stage (Some ''prod'')) = True"
    by (simp add: dryRun_option_def process_with_stage_def toLower_def lower_char_def)
  have h3: "opt_stage (process_with_stage (Some ''prod'')) = Some ''prod''
            \<and> ''prod'' \<in> {''int'', ''staging'', ''prod''}
            \<and> require_file (opt_argv (process_with_stage (Some ''prod'')))
                 (dryRun_option (process_with_stage (Some ''prod''))) = Some ''no file given''
            \<and> ''no file given'' \<noteq> []"
    by (simp add: process_with_stage_def require_file_def)
  note t1 = argument_errors_abort
              [of "process_with_stage None" idle_script "''[files]''" accept_args,
               THEN conjunct1, THEN mp, OF h1]
  note t2 = argument_errors_abort
              [of "process_with_stage (Some ''dev'')" idle_script "''[files]''" accept_args,
               THEN conjunct2, THEN conjunct1, THEN spec[of _ "''dev''"], THEN mp, OF h2]
  note t3 = argument_errors_abort
              [of "process_with_stage (Some ''prod'')" idle_script "''[files]''" require_file,
               THEN conjunct2, THEN conjunct2, THEN spec[of _ "''prod''"],
               THEN spec[of _ "''no file given''"], THEN mp, OF h3]
  have a3: "opt_argv (process_with_stage (Some ''prod'')) = []"
    by (simp add: process_with_stage_def)
  show ?thesis
    using t1 t2 t3 dry a3 by simp
qed

subsection \<open>C6: the lookups of the data sources\<close>




subsection \<open>C7: wiring comes before setup\<close>

text \<open>
  C7: all stage wiring, one call of \<^verbatim>\<open>pipe\<close> for each adjacent pair of the stages that are
  present in \<^verbatim>\<open>[source, ...transforms, sink]\<close>, is completed before the setup hook is
  invoked. Whenever a run calls setup, its events are the calls of \<^verbatim>\<open>pipe\<close> for exactly
  those pairs, in their order, then the registration of the listener (or the immediate
  \<^verbatim>\<open>resolve\<close>), then the call of setup with the config, args, context and pipeline of the
  run; nothing after it is a call of \<^verbatim>\<open>pipe\<close> or of setup.
\<close>

theorem wiring_before_setup:
  assumes "Call_setup c' a' x' p' \<in> set (events (run b c a p sigs))"
  shows "\<exists>post. events (run b c a p sigs)
                 = map pipe_event (adjacent_pairs (chain p)) @ [watch_event p]
                     @ Call_setup c a Context p # post
               \<and> filter is_pipe post = [] \<and> filter is_setup post = []"
proof (cases rule: run_cases[of b c a p])
  case (throws st0 e)
  have "\<forall>ev \<in> set (events (run b c a p sigs)). \<not> is_setup ev"
  proof
    fix ev assume "ev \<in> set (events (run b c a p sigs))"
    then have "ev = Reject e \<or> is_pipe ev \<or> is_on_finish ev"
      using throws(2) throws(3)[of sigs] by auto
    then show "\<not> is_setup ev" by (cases ev) auto
  qed
  then have False using assms by fastforce
  then show ?thesis ..
next
  case (immediate st0)
  have "events (run b c a p sigs)
          = map pipe_event (adjacent_pairs (chain p)) @ [watch_event p]
              @ Call_setup c a Context p # []
        \<and> filter is_pipe [] = [] \<and> filter is_setup [] = []"
    using immediate(2) immediate(3)[of sigs] by (simp add: watch_event_def wired_def)
  then show ?thesis by blast
next
  case (listening st0 t)
  have "events (run b c a p sigs)
          = map pipe_event (adjacent_pairs (chain p)) @ [watch_event p]
              @ Call_setup c a Context p # settle_events (first_signal (Some t) sigs)
        \<and> filter is_pipe (settle_events (first_signal (Some t) sigs)) = []
        \<and> filter is_setup (settle_events (first_signal (Some t) sigs)) = []"
    using listening(2) listening(3)[of sigs]
    by (cases "first_signal (Some t) sigs") (simp_all add: watch_event_def wired_def)
  then show ?thesis by blast
qed

theorem wiring_before_setup_witness:
  "Call_setup staging_config [] Context full_pipeline
     \<in> set (events (run (well_behaved full_pipeline) staging_config [] full_pipeline [Finish 3]))
   \<and> map pipe_event (adjacent_pairs (chain full_pipeline)) = [Pipe 0 1, Pipe 1 2, Pipe 2 3]
   \<and> (\<exists>post. events (run (well_behaved full_pipeline) staging_config [] full_pipeline [Finish 3])
                 = [Pipe 0 1, Pipe 1 2, Pipe 2 3] @ [On_finish 3]
                     @ Call_setup staging_config [] Context full_pipeline # post)"
proof -
  have h: "Call_setup staging_config [] Context full_pipeline
     \<in> set (events (run (well_behaved full_pipeline) staging_config [] full_pipeline [Finish 3]))"
    by (simp add: run_example_defs full_pipeline_def)
  have w: "map pipe_event (adjacent_pairs (chain full_pipeline)) = [Pipe 0 1, Pipe 1 2, Pipe 2 3]"
    by (simp add: adjacent_pairs_def chain_def present_def transforms_of_def
                  pipe_event_def full_pipeline_def)
  have f: "watch_event full_pipeline = On_finish 3"
    by (simp add: watch_event_def finalStream_def transforms_of_def full_pipeline_def)
  show ?thesis
    using h w wiring_before_setup[OF h] unfolding w f by blast
qed

subsection \<open>C8: the stages of LocalDBFactories\<close>

text \<open>
  C8: the \<^verbatim>\<open>initialize\<close> of LocalDBFactories rejects with an error whenever the stage that
  \<^verbatim>\<open>config.get('stage')\<close> answers is neither prod nor staging; it sets the port to 9306 for
  prod and to 8306 for staging. The stage int, which \<^verbatim>\<open>runScript\<close> accepts and for which
  it constructs a Config whose first source is a ScriptEnvironment of that stage, is
  rejected: with that source first, whatever the other sources answer, \<^verbatim>\<open>initialize\<close>
  fails with "No port for stage int".
\<close>

theorem LocalDBFactories_rejects_other_stages:
  "(config_get ''stage'' \<noteq> JStr ''prod'' \<and> config_get ''stage'' \<noteq> JStr ''staging'' \<longrightarrow>
      LocalDBFactories_initialize config_get this
        = Inl (Error (''No port for stage '' @ to_string (config_get ''stage''))))
   \<and> (config_get ''stage'' = JStr ''prod'' \<longrightarrow>
        LocalDBFactories_initialize config_get this
          = Inr (this\<lparr>port := Some 9306, user := config_get ''CLASSY_DB_USERNAME'',
                     password := config_get ''CLASSY_DB_PASSWORD''\<rparr>))
   \<and> (config_get ''stage'' = JStr ''staging'' \<longrightarrow>
        LocalDBFactories_initialize config_get this
          = Inr (this\<lparr>port := Some 8306, user := config_get ''CLASSY_DB_USERNAME'',
                     password := config_get ''CLASSY_DB_PASSWORD''\<rparr>))
   \<and> (stage se = ''int'' \<longrightarrow>
        LocalDBFactories_initialize (Config_get (ScriptEnvironment_get inherited se # gs)) this
          = Inl (Error ''No port for stage int''))
   \<and> (opt_stage proc = Some ''int'' \<and> \<not> message_given (v (opt_argv proc) (dryRun_option proc)) \<longrightarrow>
        completion (runScript f d v proc) = Returned
        \<and> (\<exists>se others. trace (runScript f d v proc) ! 2 = New_config (ScriptEnvironment se # others)
                         \<and> stage se = ''int''))"
proof -
  have a: "config_get ''stage'' \<noteq> JStr ''prod'' \<and> config_get ''stage'' \<noteq> JStr ''staging'' \<longrightarrow>
      LocalDBFactories_initialize config_get this
        = Inl (Error (''No port for stage '' @ to_string (config_get ''stage'')))"
    by (simp add: LocalDBFactories_initialize_def)
  have b: "config_get ''stage'' = JStr ''prod'' \<longrightarrow>
        LocalDBFactories_initialize config_get this
          = Inr (this\<lparr>port := Some 9306, user := config_get ''CLASSY_DB_USERNAME'',
                     password := config_get ''CLASSY_DB_PASSWORD''\<rparr>)"
    by (simp add: LocalDBFactories_initialize_def)
  have c: "config_get ''stage'' = JStr ''staging'' \<longrightarrow>
        LocalDBFactories_initialize config_get this
          = Inr (this\<lparr>port := Some 8306, user := config_get ''CLASSY_DB_USERNAME'',
                     password := config_get ''CLASSY_DB_PASSWORD''\<rparr>)"
    by (simp add: LocalDBFactories_initialize_def)
  have d: "stage se = ''int'' \<longrightarrow>
        LocalDBFactories_initialize (Config_get (ScriptEnvironment_get inherited se # gs)) this
          = Inl (Error ''No port for stage int'')"
  proof
    assume s: "stage se = ''int''"
    have "ScriptEnvironment_get inherited se ''stage'' = JStr ''int''"
      using s by (simp add: ScriptEnvironment_get_def)
    then have "Config_get (ScriptEnvironment_get inherited se # gs) ''stage'' = JStr ''int''"
      by simp
    then show "LocalDBFactories_initialize (Config_get (ScriptEnvironment_get inherited se # gs)) this
          = Inl (Error ''No port for stage int'')"
      by (simp add: LocalDBFactories_initialize_def)
  qed
  have e: "opt_stage proc = Some ''int'' \<and> \<not> message_given (v (opt_argv proc) (dryRun_option proc)) \<longrightarrow>
        completion (runScript f d v proc) = Returned
        \<and> (\<exists>se others. trace (runScript f d v proc) ! 2 = New_config (ScriptEnvironment se # others)
                         \<and> stage se = ''int'')"
    by (auto simp: runScript_def aws_profile_def new_config_def Let_def split: prod.splits)
  show ?thesis using a b c d e by blast
qed

theorem LocalDBFactories_rejects_other_stages_witness:
  "stage (script_environment_of ''int'') = ''int''
   \<and> LocalDBFactories_initialize
        (Config_get [ScriptEnvironment_get Object_prototype (script_environment_of ''int'')]) new_local_db
       = Inl (Error ''No port for stage int'')
   \<and> Config_get [ScriptEnvironment_get Object_prototype (script_environment_of ''prod'')] ''stage''
       = JStr ''prod''
   \<and> LocalDBFactories_initialize
        (Config_get [ScriptEnvironment_get Object_prototype (script_environment_of ''prod'')]) new_local_db
       = Inr \<lparr>port = Some 9306, user = JNull, password = JNull\<rparr>
   \<and> Config_get [ScriptEnvironment_get Object_prototype (script_environment_of ''staging'')] ''stage''
       = JStr ''staging''
   \<and> LocalDBFactories_initialize
        (Config_get [ScriptEnvironment_get Object_prototype (script_environment_of ''staging'')]) new_local_db
       = Inr \<lparr>port = Some 8306, user = JNull, password = JNull\<rparr>
   \<and> Config_get [] ''stage'' \<noteq> JStr ''prod'' \<and> Config_get [] ''stage'' \<noteq> JStr ''staging''
   \<and> LocalDBFactories_initialize (Config_get []) new_local_db
       = Inl (Error ''No port for stage undefined'')
   \<and> opt_stage (process_with_stage (Some ''int'')) = Some ''int''
   \<and> \<not> message_given (accept_args (opt_argv (process_with_stage (Some ''int'')))
                        (dryRun_option (process_with_stage (Some ''int''))))
   \<and> completion (runScript idle_script ''[files]'' accept_args (process_with_stage (Some ''int'')))
       = Returned"
proof -
  have h1: "stage (script_environment_of ''int'') = ''int''"
    by (simp add: script_environment_of_def)
  have h2: "Config_get [ScriptEnvironment_get Object_prototype (script_environment_of ''prod'')] ''stage''
              = JStr ''prod''"
    by (simp add: ScriptEnvironment_get_def script_environment_of_def)
  have h3: "Config_get [ScriptEnvironment_get Object_prototype (script_environment_of ''staging'')] ''stage''
              = JStr ''staging''"
    by (simp add: ScriptEnvironment_get_def script_environment_of_def)
  have h4: "Config_get [] ''stage'' \<noteq> JStr ''prod'' \<and> Config_get [] ''stage'' \<noteq> JStr ''staging''"
    by simp
  have h5: "opt_stage (process_with_stage (Some ''int'')) = Some ''int''
            \<and> \<not> message_given (accept_args (opt_argv (process_with_stage (Some ''int'')))
                                (dryRun_option (process_with_stage (Some ''int''))))"
    by (simp add: process_with_stage_def accept_args_def)
  have u: "Config_get [ScriptEnvironment_get Object_prototype (script_environment_of stg)]
             ''CLASSY_DB_USERNAME'' = JNull"
          "Config_get [ScriptEnvironment_get Object_prototype (script_environment_of stg)]
             ''CLASSY_DB_PASSWORD'' = JNull" for stg
    by (simp_all add: ScriptEnvironment_get_def script_environment_of_def lodash_get_def)
  note t1 = LocalDBFactories_rejects_other_stages
              [of _ new_local_db "script_environment_of ''int''" Object_prototype "[]",
               THEN conjunct2, THEN conjunct2, THEN conjunct2, THEN conjunct1, THEN mp, OF h1]
  have t2: "LocalDBFactories_initialize
        (Config_get [ScriptEnvironment_get Object_prototype (script_environment_of ''prod'')]) new_local_db
       = Inr \<lparr>port = Some 9306, user = JNull, password = JNull\<rparr>"
    using LocalDBFactories_rejects_other_stages
              [of "Config_get [ScriptEnvironment_get Object_prototype (script_environment_of ''prod'')]"
                  new_local_db,
               THEN conjunct2, THEN conjunct1, THEN mp, OF h2] u
    by (simp add: new_local_db_def)
  have t3: "LocalDBFactories_initialize
        (Config_get [ScriptEnvironment_get Object_prototype (script_environment_of ''staging'')]) new_local_db
       = Inr \<lparr>port = Some 8306, user = JNull, password = JNull\<rparr>"
    using LocalDBFactories_rejects_other_stages
              [of "Config_get [ScriptEnvironment_get Object_prototype (script_environment_of ''staging'')]"
                  new_local_db,
               THEN conjunct2, THEN conjunct2, THEN conjunct1, THEN mp, OF h3] u
    by (simp add: new_local_db_def)
  have t4: "LocalDBFactories_initialize (Config_get []) new_local_db
       = Inl (Error ''No port for stage undefined'')"
    using LocalDBFactories_rejects_other_stages
              [of "Config_get []" new_local_db, THEN conjunct1, THEN mp, OF h4]
    by simp
  have t5: "completion (runScript idle_script ''[files]'' accept_args (process_with_stage (Some ''int'')))
       = Returned"
    using LocalDBFactories_rejects_other_stages
              [of _ _ _ _ _ "process_with_stage (Some ''int'')" accept_args idle_script "''[files]''",
               THEN conjunct2, THEN conjunct2, THEN conjunct2, THEN conjunct2, THEN mp, OF h5]
    by blast
  show ?thesis
    using h1 t1 h2 t2 h3 t3 h4 t4 h5 t5 by blast
qed

subsection \<open>C9: the keys of ScriptEnvironment\<close>

text \<open>
  C9 says that for every key other than stage, dryRun, args and dir that is absent from the
  merged environment object, \<^verbatim>\<open>get\<close> returns null. The code answers such a key with
  \<^verbatim>\<open>_.get(this.environment, key, null)\<close>, which reads the key as a path and sees
  inherited properties. With an empty environment the key \<^verbatim>\<open>constructor\<close>, which the
  environment does not hold, answers the function \<^verbatim>\<open>Object\<close> that every object inherits;
  and the key \<^verbatim>\<open>db.host\<close>, which is not a key of the environment either, answers the
  \<^verbatim>\<open>host\<close> of the object under \<^verbatim>\<open>db\<close>.
\<close>

theorem absent_key_is_not_always_null:
  "own_property (JObj []) ''constructor'' = None
   \<and> ScriptEnvironment_get Object_prototype
        ((script_environment_of ''staging'')\<lparr>environment := JObj []\<rparr>) ''constructor''
       = JFunction ''Object''
   \<and> own_property (environment loaded_environment) ''db.host'' = None
   \<and> ScriptEnvironment_get Object_prototype loaded_environment ''db.host'' = JStr ''localhost''"
  by (simp add: ScriptEnvironment_get_def lodash_get_def baseGet_def castPath_def isKey_def
                reIsPlainProp_def word_char_def has_property_def own_property_def get_property_def
                Object_prototype_def stringToPath_def path_char_def empty_key_here_def
                delimiter_or_end_def loaded_environment_def script_environment_of_def)

text \<open>
  C9 as amended: the \<^verbatim>\<open>get\<close> of ScriptEnvironment answers the keys stage, dryRun, args and
  dir from what \<^verbatim>\<open>runScript\<close> parsed (the stage, the dry-run flag, the remaining
  arguments) and from \<^verbatim>\<open>process.env.PWD\<close>, whatever the environment holds, and
  \<^verbatim>\<open>initialize\<close>, which loads the environment files, changes none of these four answers.
  Every other key is answered by \<^verbatim>\<open>_.get(environment, key, null)\<close>: the answer is never
  undefined; it is null when the environment is not loaded; and for a key without path
  syntax (no dot, no opening bracket) it is the value of the property of that name which
  the merged environment holds or else inherits, and null when it neither holds nor
  inherits one (or when the value is undefined).
\<close>

theorem ScriptEnvironment_get_resolution:
  "ScriptEnvironment_get inherited this ''stage'' = JStr (stage this)
   \<and> ScriptEnvironment_get inherited this ''dryRun'' = JBool (dryRun this)
   \<and> ScriptEnvironment_get inherited this ''args'' = JArr (map JStr (argv this))
   \<and> ScriptEnvironment_get inherited this ''dir''
       = (case dir this of None \<Rightarrow> JUndefined | Some d \<Rightarrow> JStr d)
   \<and> (\<forall>this'. ScriptEnvironment_initialize baseMerge envJSONFile envYAMLFile this = Inr this' \<longrightarrow>
         (\<forall>k \<in> reserved_keys.
            ScriptEnvironment_get inherited this' k = ScriptEnvironment_get inherited this k))
   \<and> (key \<notin> reserved_keys \<longrightarrow>
         ScriptEnvironment_get inherited this key
           = lodash_get inherited (environment this) key JNull
         \<and> ScriptEnvironment_get inherited this key \<noteq> JUndefined
         \<and> (environment this = JUndefined \<longrightarrow> ScriptEnvironment_get inherited this key = JNull)
         \<and> (\<forall>ps. environment this = JObj ps \<and> CHR ''.'' \<notin> set key \<and> CHR ''['' \<notin> set key \<longrightarrow>
               ScriptEnvironment_get inherited this key
                 = (case map_of ps key of
                      Some v \<Rightarrow> if v = JUndefined then JNull else v
                    | None \<Rightarrow>
                        (case inherited (JObj ps) key of
                           Some v \<Rightarrow> if v = JUndefined then JNull else v
                         | None \<Rightarrow> JNull))))"
proof -
  have r: "ScriptEnvironment_get inherited this ''stage'' = JStr (stage this)
   \<and> ScriptEnvironment_get inherited this ''dryRun'' = JBool (dryRun this)
   \<and> ScriptEnvironment_get inherited this ''args'' = JArr (map JStr (argv this))
   \<and> ScriptEnvironment_get inherited this ''dir''
       = (case dir this of None \<Rightarrow> JUndefined | Some d \<Rightarrow> JStr d)"
    by (simp add: ScriptEnvironment_get_def)
  have i: "\<forall>this'. ScriptEnvironment_initialize baseMerge envJSONFile envYAMLFile this = Inr this' \<longrightarrow>
         (\<forall>k \<in> reserved_keys.
            ScriptEnvironment_get inherited this' k = ScriptEnvironment_get inherited this k)"
    by (auto simp: ScriptEnvironment_initialize_def ScriptEnvironment_get_def reserved_keys_def
             split: sum.splits)
  have o: "key \<notin> reserved_keys \<longrightarrow>
         ScriptEnvironment_get inherited this key
           = lodash_get inherited (environment this) key JNull
         \<and> ScriptEnvironment_get inherited this key \<noteq> JUndefined
         \<and> (environment this = JUndefined \<longrightarrow> ScriptEnvironment_get inherited this key = JNull)
         \<and> (\<forall>ps. environment this = JObj ps \<and> CHR ''.'' \<notin> set key \<and> CHR ''['' \<notin> set key \<longrightarrow>
               ScriptEnvironment_get inherited this key
                 = (case map_of ps key of
                      Some v \<Rightarrow> if v = JUndefined then JNull else v
                    | None \<Rightarrow>
                        (case inherited (JObj ps) key of
                           Some v \<Rightarrow> if v = JUndefined then JNull else v
                         | None \<Rightarrow> JNull)))"
  proof
    assume k: "key \<notin> reserved_keys"
    have g: "ScriptEnvironment_get inherited this key
               = lodash_get inherited (environment this) key JNull"
      using k by (simp add: ScriptEnvironment_get_def reserved_keys_def)
    have n: "lodash_get inherited (environment this) key JNull \<noteq> JUndefined"
      by (simp add: lodash_get_def Let_def)
    have u: "environment this = JUndefined \<longrightarrow>
               lodash_get inherited (environment this) key JNull = JNull"
      by (simp add: lodash_get_def)
    have p: "\<forall>ps. environment this = JObj ps \<and> CHR ''.'' \<notin> set key \<and> CHR ''['' \<notin> set key \<longrightarrow>
               lodash_get inherited (environment this) key JNull
                 = (case map_of ps key of
                      Some v \<Rightarrow> if v = JUndefined then JNull else v
                    | None \<Rightarrow>
                        (case inherited (JObj ps) key of
                           Some v \<Rightarrow> if v = JUndefined then JNull else v
                         | None \<Rightarrow> JNull))"
      by (auto simp: lodash_get_plain_key get_property_def own_property_def split: option.splits)
    show "ScriptEnvironment_get inherited this key
           = lodash_get inherited (environment this) key JNull
         \<and> ScriptEnvironment_get inherited this key \<noteq> JUndefined
         \<and> (environment this = JUndefined \<longrightarrow> ScriptEnvironment_get inherited this key = JNull)
         \<and> (\<forall>ps. environment this = JObj ps \<and> CHR ''.'' \<notin> set key \<and> CHR ''['' \<notin> set key \<longrightarrow>
               ScriptEnvironment_get inherited this key
                 = (case map_of ps key of
                      Some v \<Rightarrow> if v = JUndefined then JNull else v
                    | None \<Rightarrow>
                        (case inherited (JObj ps) key of
                           Some v \<Rightarrow> if v = JUndefined then JNull else v
                         | None \<Rightarrow> JNull)))"
      unfolding g using n u p by blast
  qed
  show ?thesis using r i o by blast
qed

theorem ScriptEnvironment_get_resolution_witness:
  "ScriptEnvironment_initialize (\<lambda>object source. object) prod_only_file Missing
     (script_environment_of ''staging'')
     = Inr ((script_environment_of ''staging'')\<lparr>environment := JObj []\<rparr>)
   \<and> ''stage'' \<in> reserved_keys
   \<and> ScriptEnvironment_get Object_prototype
        ((script_environment_of ''staging'')\<lparr>environment := JObj []\<rparr>) ''stage''
       = JStr ''staging''
   \<and> ScriptEnvironment_get Object_prototype loaded_environment ''stage'' = JStr ''staging''
   \<and> ''port'' \<notin> reserved_keys
   \<and> ScriptEnvironment_get Object_prototype (script_environment_of ''staging'') ''port'' = JNull
   \<and> ScriptEnvironment_get Object_prototype loaded_environment ''port'' = JNull
   \<and> ''db'' \<notin> reserved_keys
   \<and> ScriptEnvironment_get Object_prototype loaded_environment ''db''
       = JObj [(''host'', JStr ''localhost'')]"
proof -
  define initial where "initial = script_environment_of ''staging''"
  define empty where "empty = initial\<lparr>environment := JObj []\<rparr>"
  define ps where
    "ps = [(''stage'', JStr ''prod''), (''db'', JObj [(''host'', JStr ''localhost'')])]"
  have i: "ScriptEnvironment_initialize (\<lambda>object source. object) prod_only_file Missing initial
             = Inr empty"
    by (simp add: ScriptEnvironment_initialize_def merge_file_def lodash_merge_def
                  prod_only_file_def script_environment_of_def initial_def empty_def)
  have k1: "''stage'' \<in> reserved_keys" by (simp add: reserved_keys_def)
  have k2: "''port'' \<notin> reserved_keys" by (simp add: reserved_keys_def)
  have k3: "''db'' \<notin> reserved_keys" by (simp add: reserved_keys_def)
  have s0: "ScriptEnvironment_get Object_prototype initial ''stage'' = JStr ''staging''"
    using ScriptEnvironment_get_resolution[of Object_prototype initial, THEN conjunct1]
    by (simp add: initial_def script_environment_of_def)
  have s1: "ScriptEnvironment_get Object_prototype empty ''stage'' = JStr ''staging''"
    using ScriptEnvironment_get_resolution
            [of Object_prototype initial "\<lambda>object source. object" prod_only_file Missing,
             THEN conjunct2, THEN conjunct2, THEN conjunct2, THEN conjunct2, THEN conjunct1,
             THEN spec[of _ empty], THEN mp, OF i, THEN bspec, OF k1] s0
    by simp
  have s2: "ScriptEnvironment_get Object_prototype loaded_environment ''stage'' = JStr ''staging''"
    using ScriptEnvironment_get_resolution[of Object_prototype loaded_environment, THEN conjunct1]
    by (simp add: loaded_environment_def script_environment_of_def)
  have u: "environment initial = JUndefined"
    by (simp add: initial_def script_environment_of_def)
  have n0: "ScriptEnvironment_get Object_prototype initial ''port'' = JNull"
    using ScriptEnvironment_get_resolution
            [of Object_prototype initial _ _ _ "''port''",
             THEN conjunct2, THEN conjunct2, THEN conjunct2, THEN conjunct2, THEN conjunct2,
             THEN mp, OF k2, THEN conjunct2, THEN conjunct2, THEN conjunct1, THEN mp, OF u] .
  have e: "environment loaded_environment = JObj ps"
    by (simp add: loaded_environment_def ps_def)
  have hp: "environment loaded_environment = JObj ps \<and> CHR ''.'' \<notin> set ''port''
            \<and> CHR ''['' \<notin> set ''port''"
    using e by simp
  have hd: "environment loaded_environment = JObj ps \<and> CHR ''.'' \<notin> set ''db''
            \<and> CHR ''['' \<notin> set ''db''"
    using e by simp
  have n1: "ScriptEnvironment_get Object_prototype loaded_environment ''port'' = JNull"
    using ScriptEnvironment_get_resolution
            [of Object_prototype loaded_environment _ _ _ "''port''",
             THEN conjunct2, THEN conjunct2, THEN conjunct2, THEN conjunct2, THEN conjunct2,
             THEN mp, OF k2, THEN conjunct2, THEN conjunct2, THEN conjunct2,
             THEN spec[of _ ps], THEN mp, OF hp]
    by (simp add: ps_def Object_prototype_def)
  have n2: "ScriptEnvironment_get Object_prototype loaded_environment ''db''
              = JObj [(''host'', JStr ''localhost'')]"
    using ScriptEnvironment_get_resolution
            [of Object_prototype loaded_environment _ _ _ "''db''",
             THEN conjunct2, THEN conjunct2, THEN conjunct2, THEN conjunct2, THEN conjunct2,
             THEN mp, OF k3, THEN conjunct2, THEN conjunct2, THEN conjunct2,
             THEN spec[of _ ps], THEN mp, OF hd]
    by (simp add: ps_def)
  show ?thesis
    using i k1 s1 s2 k2 n0 n1 k3 n2 unfolding initial_def empty_def by blast
qed

subsection \<open>C10: AWS_PROFILE\<close>

text \<open>
  C10: for every run of \<^verbatim>\<open>runScript\<close> with a valid stage, the first event of the run is the
  assignment of \<^verbatim>\<open>process.env['AWS_PROFILE']\<close>, to classy-test for int and staging and to
  prod-pay for prod; the second is the call of the argument validator; the construction of
  the Config, if the run gets there, comes after both. The variable has that value in the
  environment the run leaves behind.
\<close>

theorem aws_profile_set_before_validation:
  assumes "opt_stage proc = Some s" "s \<in> {''int'', ''staging'', ''prod''}"
  shows "(\<exists>rest. trace (runScript f d v proc)
                  = Set_env ''AWS_PROFILE'' (if s = ''prod'' then ''prod-pay'' else ''classy-test'')
                      # Validate_args (opt_argv proc) (dryRun_option proc) # rest
                \<and> ((\<exists>m. rest = [Console_error m])
                     \<or> (\<exists>config evs. rest = New_config config # evs)))
       \<and> env_after (runScript f d v proc) ''AWS_PROFILE''
           = Some (if s = ''prod'' then ''prod-pay'' else ''classy-test'')"
  using assms
  by (auto simp: runScript_def aws_profile_def Let_def split: prod.splits)

theorem aws_profile_set_before_validation_witness:
  "opt_stage (process_with_stage (Some ''int'')) = Some ''int''
   \<and> ''int'' \<in> {''int'', ''staging'', ''prod''}
   \<and> env (process_with_stage (Some ''int'')) ''AWS_PROFILE'' = None
   \<and> env_after (runScript idle_script ''[files]'' accept_args (process_with_stage (Some ''int'')))
        ''AWS_PROFILE'' = Some ''classy-test''"
proof -
  have h1: "opt_stage (process_with_stage (Some ''int'')) = Some ''int''"
    by (simp add: process_with_stage_def)
  have h2: "''int'' \<in> {''int'', ''staging'', ''prod''}" by simp
  have e: "env (process_with_stage (Some ''int'')) ''AWS_PROFILE'' = None"
    by (simp add: process_with_stage_def)
  have a: "env_after (runScript idle_script ''[files]'' accept_args (process_with_stage (Some ''int'')))
        ''AWS_PROFILE'' = Some ''classy-test''"
    using aws_profile_set_before_validation
            [OF h1 h2, of idle_script "''[files]''" accept_args, THEN conjunct2]
    by simp
  show ?thesis using h1 h2 e a by blast
qed

end
